theory Spec2Isabelle
  imports Complex_Main
begin

section \<open>Values of the program\<close>

text \<open>
  \<^verbatim>\<open>scripts/ungraded.py\<close> works on two inputs: the course structure, which is whatever
  \<^verbatim>\<open>json.load\<close> returns, and the student table, a pandas DataFrame.  A parsed JSON
  document is a Python value built from \<^verbatim>\<open>None\<close>, \<^verbatim>\<open>bool\<close>, \<^verbatim>\<open>int\<close>, \<^verbatim>\<open>float\<close>,
  \<^verbatim>\<open>str\<close>, \<^verbatim>\<open>list\<close> and \<^verbatim>\<open>dict\<close>.  A dict keeps its keys in insertion order, so it
  is an association list (of distinct keys, looked up with \<open>map_of\<close>).  A float is
  the rational it denotes (the non-standard literals NaN and Infinity are left out).
\<close>

datatype json =
    JNull
  | JBool bool
  | JInt int
  | JFloat rat
  | JStr string
  | JArr "json list"
  | JObj "(string \<times> json) list"

datatype error =
    KeyError
  | TypeError
  | AttributeError
  | IndexError
  | ValueError
  | JSONDecodeError
  | UnicodeDecodeError
  | EmptyDataError
  | ParserError
  | OSError

text \<open>Sequencing of two steps, the first of which may raise.\<close>

fun bind_r :: "error + 'a \<Rightarrow> ('a \<Rightarrow> error + 'b) \<Rightarrow> error + 'b" where
  "bind_r (Inl e) f = Inl e"
| "bind_r (Inr x) f = f x"

text \<open>A \<^verbatim>\<open>for\<close> loop whose body updates a state and may raise: the first error ends it.\<close>

fun for_each :: "('a \<Rightarrow> 's \<Rightarrow> error + 's) \<Rightarrow> 'a list \<Rightarrow> 's \<Rightarrow> error + 's" where
  "for_each body [] s = Inr s"
| "for_each body (x # xs) s = bind_r (body x s) (for_each body xs)"

subsection \<open>Python's operators on parsed JSON\<close>

text \<open>\<^verbatim>\<open>needle in haystack\<close> for two strings: the substring test.\<close>

fun str_in :: "string \<Rightarrow> string \<Rightarrow> bool" where
  "str_in k [] = (k = [])"
| "str_in k (c # s) = (take (length k) (c # s) = k \<or> str_in k s)"

text \<open>
  \<^verbatim>\<open>k in x\<close> for a string \<open>k\<close>: key membership in a dict, element membership in a
  list, the substring test in a string, and a TypeError for the values that are not
  containers.
\<close>

fun py_in :: "string \<Rightarrow> json \<Rightarrow> error + bool" where
  "py_in k (JObj kvs) = Inr (k \<in> set (map fst kvs))"
| "py_in k (JArr xs) = Inr (JStr k \<in> set xs)"
| "py_in k (JStr s) = Inr (str_in k s)"
| "py_in k _ = Inl TypeError"

text \<open>Iterating a value: the elements of a list, the keys of a dict, the characters of a string.\<close>

fun py_iter :: "json \<Rightarrow> error + json list" where
  "py_iter (JArr xs) = Inr xs"
| "py_iter (JObj kvs) = Inr (map (\<lambda>kv. JStr (fst kv)) kvs)"
| "py_iter (JStr s) = Inr (map (\<lambda>c. JStr [c]) s)"
| "py_iter _ = Inl TypeError"

text \<open>Only lists and dicts cannot be hashed, that is, used as a key.\<close>

fun hashable :: "json \<Rightarrow> bool" where
  "hashable (JArr _) = False"
| "hashable (JObj _) = False"
| "hashable _ = True"

text \<open>A sequence index: negative indices count from the end.\<close>

definition seq_index :: "'a list \<Rightarrow> int \<Rightarrow> error + 'a" where
  "seq_index xs i =
     (if 0 \<le> i \<and> i < int (length xs) then Inr (xs ! nat i)
      else if i < 0 \<and> - int (length xs) \<le> i then Inr (xs ! nat (int (length xs) + i))
      else Inl IndexError)"

text \<open>
  \<^verbatim>\<open>x[k]\<close>.  A dict of a parsed document has string keys only, so a hashable key that
  is no string is missing from it; a list or a string takes an \<^verbatim>\<open>int\<close> (and
  \<^verbatim>\<open>bool\<close> is an \<^verbatim>\<open>int\<close>); nothing else can be subscripted.
\<close>

fun py_getitem :: "json \<Rightarrow> json \<Rightarrow> error + json" where
  "py_getitem (JObj kvs) (JStr k) = (case map_of kvs k of None \<Rightarrow> Inl KeyError | Some v \<Rightarrow> Inr v)"
| "py_getitem (JObj kvs) k = (if hashable k then Inl KeyError else Inl TypeError)"
| "py_getitem (JArr xs) (JInt i) = seq_index xs i"
| "py_getitem (JArr xs) (JBool b) = seq_index xs (if b then 1 else 0)"
| "py_getitem (JStr s) (JInt i) = map_sum id (\<lambda>c. JStr [c]) (seq_index s i)"
| "py_getitem (JStr s) (JBool b) = map_sum id (\<lambda>c. JStr [c]) (seq_index s (if b then 1 else 0))"
| "py_getitem _ _ = Inl TypeError"

text \<open>
  Two hashable values are the same dict key when they are equal in Python:
  \<^verbatim>\<open>True == 1 == 1.0\<close> and \<^verbatim>\<open>False == 0\<close>; otherwise values of different types differ.
\<close>

fun key_norm :: "json \<Rightarrow> json" where
  "key_norm (JBool b) = JInt (if b then 1 else 0)"
| "key_norm (JFloat r) = (if r = of_int \<lfloor>r\<rfloor> then JInt \<lfloor>r\<rfloor> else JFloat r)"
| "key_norm v = v"

definition key_eq :: "json \<Rightarrow> json \<Rightarrow> bool" where
  "key_eq a b = (key_norm a = key_norm b)"

text \<open>
  \<^verbatim>\<open>d.setdefault(k, []).append(v)\<close> on a dict of lists: the list under \<open>k\<close> grows at
  its end; a new key is added last and an old key keeps its place and its first spelling.
\<close>

fun setdefault_append :: "json \<Rightarrow> 'v \<Rightarrow> (json \<times> 'v list) list \<Rightarrow> (json \<times> 'v list) list" where
  "setdefault_append k v [] = [(k, [v])]"
| "setdefault_append k v ((k', vs) # d) =
     (if key_eq k' k then (k', vs @ [v]) # d else (k', vs) # setdefault_append k v d)"

section \<open>The class UngradedProblems: extraction\<close>

text \<open>
  The object has three attributes.  \<open>student_df\<close> is a reference to a DataFrame: the
  address of the frame in the store of frames (see below).  \<open>ungraded\<close> maps a section
  name to the list of its problems, each a pair (display name, id).
\<close>

type_synonym problems = "(json \<times> json) list"

record UngradedProblems =
  course_structure :: json
  student_df :: nat
  ungraded :: "(json \<times> problems) list"

text \<open>
  The body of the loop of \<^verbatim>\<open>add_from_vert\<close>, for one \<^verbatim>\<open>child_id\<close>.  Python evaluates
  \<^verbatim>\<open>self.ungraded.setdefault(vert_name, [])\<close> (which hashes \<open>vert_name\<close>) before the
  argument of \<^verbatim>\<open>append\<close>.
\<close>

definition add_child :: "json \<Rightarrow> json \<Rightarrow> UngradedProblems \<Rightarrow> error + UngradedProblems" where
  "add_child vert child_id self =
     bind_r (py_getitem (course_structure self) child_id) (\<lambda>child.
     bind_r (py_getitem child (JStr ''category'')) (\<lambda>cat.
       if cat = JStr ''problem'' then
         bind_r (py_getitem vert (JStr ''metadata'')) (\<lambda>vm.
         bind_r (py_getitem vm (JStr ''display_name'')) (\<lambda>vert_name.
           if \<not> hashable vert_name then Inl TypeError
           else
             bind_r (py_getitem child (JStr ''metadata'')) (\<lambda>cm.
             bind_r (py_getitem cm (JStr ''display_name'')) (\<lambda>name.
               Inr (self\<lparr>ungraded :=
                      setdefault_append vert_name (name, child_id) (ungraded self)\<rparr>)))))
       else Inr self))"

definition add_from_vert :: "json \<Rightarrow> UngradedProblems \<Rightarrow> error + UngradedProblems" where
  "add_from_vert vert self =
     bind_r (py_getitem vert (JStr ''children'')) (\<lambda>children.
     bind_r (py_iter children) (\<lambda>child_ids.
       for_each (add_child vert) child_ids self))"

text \<open>The body of the loop of \<^verbatim>\<open>extract_ungraded\<close>, for one item of the course structure.\<close>

definition visit_vert :: "json \<Rightarrow> UngradedProblems \<Rightarrow> error + UngradedProblems" where
  "visit_vert vid self =
     bind_r (py_getitem (course_structure self) vid) (\<lambda>vert. add_from_vert vert self)"

definition visit_node :: "string \<times> json \<Rightarrow> UngradedProblems \<Rightarrow> error + UngradedProblems" where
  "visit_node item self =
     (let desc = snd item in
      bind_r (py_getitem desc (JStr ''category'')) (\<lambda>cat.
        if cat = JStr ''sequential'' then
          bind_r (py_getitem desc (JStr ''metadata'')) (\<lambda>md.
          bind_r (py_in ''graded'' md) (\<lambda>graded.
            if \<not> graded then
              bind_r (py_getitem desc (JStr ''children'')) (\<lambda>vert_ids.
              bind_r (py_iter vert_ids) (\<lambda>vids.
                for_each visit_vert vids self))
            else Inr self))
        else Inr self))"

text \<open>
  \<^verbatim>\<open>extract_ungraded\<close> first resets \<^verbatim>\<open>self.ungraded\<close>; \<^verbatim>\<open>.items()\<close> exists on a dict
  only.
\<close>

definition extract_ungraded :: "UngradedProblems \<Rightarrow> error + UngradedProblems" where
  "extract_ungraded self =
     (case course_structure self of
        JObj items \<Rightarrow> for_each visit_node items (self\<lparr>ungraded := []\<rparr>)
      | _ \<Rightarrow> Inl AttributeError)"

section \<open>DataFrames, the store of frames and the file system\<close>

text \<open>
  A cell of a DataFrame is the float NaN (a missing value) or a Python object.  A frame
  has its column names in order and its rows, each with its index label and its cells
  by column name.
\<close>

datatype cell = NaN | Val json

record frame =
  columns :: "string list"
  rows :: "(nat \<times> (string \<times> cell) list) list"

text \<open>
  The script changes the world in two ways: it creates DataFrames and assigns a column
  of one of them in place, and it calls the operating system.  DataFrames are objects in
  a store (\<open>frames\<close>, addressed by position), so that a frame reached through two names
  is one frame.  The file system is the list of the calls made so far, in order.
\<close>

datatype fsop = MakeDirs string | ToCsv string frame

record world =
  frames :: "frame list"
  fs :: "fsop list"

type_synonym pystate = "UngradedProblems \<times> world"

text \<open>
  What the script calls outside its own code and outside Python's core: \<^verbatim>\<open>gpg\<close> run
  through \<^verbatim>\<open>Popen\<close> (the text it prints on its standard output for a file name), the
  JSON parser, the tokenizer of \<^verbatim>\<open>pandas.read_csv\<close> (header and data rows for a
  separator) and its built-in list of missing-value spellings, the codec behind
  \<^verbatim>\<open>s.encode().decode('unicode_escape')\<close>, \<^verbatim>\<open>str()\<close> of a value that is no string,
  the operating system, which may refuse a call given the calls made before, and the
  dtype inference of \<^verbatim>\<open>Series.apply\<close>: pandas looks at all the results of the function
  applied and stores each of them converted to the dtype it chose for the column
  (\<open>convert_objects results v\<close> is the cell stored for the result \<open>v\<close>).
\<close>

record env =
  gpg_stdout :: "string \<Rightarrow> error + string"
  json_loads :: "string \<Rightarrow> error + json"
  read_table :: "char \<Rightarrow> string \<Rightarrow> error + (string list \<times> string list list)"
  default_na :: "string list"
  unicode_escape :: "string \<Rightarrow> error + string"
  py_str :: "json \<Rightarrow> string"
  os_error :: "fsop list \<Rightarrow> fsop \<Rightarrow> error option"
  convert_objects :: "json list \<Rightarrow> json \<Rightarrow> cell"

text \<open>A loop over calls that change the world: an error leaves the world as it was then.\<close>

fun for_each_io :: "('a \<Rightarrow> 's \<Rightarrow> error option \<times> 's) \<Rightarrow> 'a list \<Rightarrow> 's \<Rightarrow> error option \<times> 's" where
  "for_each_io body [] st = (None, st)"
| "for_each_io body (x # xs) st =
     (case body x st of
        (Some e, st') \<Rightarrow> (Some e, st')
      | (None, st') \<Rightarrow> for_each_io body xs st')"

fun map_r :: "('a \<Rightarrow> error + 'b) \<Rightarrow> 'a list \<Rightarrow> error + 'b list" where
  "map_r f [] = Inr []"
| "map_r f (x # xs) = bind_r (f x) (\<lambda>y. bind_r (map_r f xs) (\<lambda>ys. Inr (y # ys)))"

subsection \<open>The pandas operations the script uses\<close>

text \<open>\<^verbatim>\<open>df.name\<close>: the column as a list of cells; there is no such attribute without the column.\<close>

definition frame_col :: "frame \<Rightarrow> string \<Rightarrow> error + cell list" where
  "frame_col df c =
     (if c \<in> set (columns df)
      then Inr (map (\<lambda>r. case map_of (snd r) c of None \<Rightarrow> NaN | Some v \<Rightarrow> v) (rows df))
      else Inl AttributeError)"

text \<open>
  \<^verbatim>\<open>series == v\<close>: the mask of the cells equal to \<open>v\<close>; NaN equals nothing.  The cells
  of \<^verbatim>\<open>student_df\<close> are strings or NaN and \<open>v\<close> is an id that was a key of the course
  structure, a string: a string equals the same string only.
\<close>

definition series_eq :: "cell list \<Rightarrow> json \<Rightarrow> bool list" where
  "series_eq col v = map (\<lambda>c. c = Val v) col"

text \<open>\<^verbatim>\<open>df.loc[mask]\<close>: a new frame with the rows where the mask holds, labels kept.\<close>

definition loc_mask :: "frame \<Rightarrow> bool list \<Rightarrow> frame" where
  "loc_mask df keep = df\<lparr>rows := map snd (filter fst (zip keep (rows df)))\<rparr>"

fun assoc_set :: "'k \<Rightarrow> 'v \<Rightarrow> ('k \<times> 'v) list \<Rightarrow> ('k \<times> 'v) list" where
  "assoc_set k v [] = [(k, v)]"
| "assoc_set k v ((k', v') # r) = (if k' = k then (k, v) # r else (k', v') # assoc_set k v r)"

text \<open>\<^verbatim>\<open>df[c] = values\<close>: the column is replaced, or added as the last one.\<close>

definition set_col :: "frame \<Rightarrow> string \<Rightarrow> cell list \<Rightarrow> frame" where
  "set_col df c vals =
     \<lparr>columns = (if c \<in> set (columns df) then columns df else columns df @ [c]),
      rows = map (\<lambda>rv. (fst (fst rv), assoc_set c (snd rv) (snd (fst rv)))) (zip (rows df) vals)\<rparr>"

text \<open>
  \<^verbatim>\<open>pandas.read_csv(stream, sep, na_values=na, usecols=usecols, dtype=str)\<close>, after the
  tokenizer: every name of \<open>usecols\<close> must be in the header (ValueError otherwise), the
  columns kept are those of the header that \<open>usecols\<close> names, in the header's order, a
  field spelled as one of the missing values is NaN and every other field stays the
  string it is; the rows are labelled from 0.
\<close>

definition to_cell :: "string list \<Rightarrow> string \<Rightarrow> cell" where
  "to_cell na field = (if field \<in> set na then NaN else Val (JStr field))"

definition pd_read_csv :: "env \<Rightarrow> string \<Rightarrow> char \<Rightarrow> string list \<Rightarrow> string list \<Rightarrow> error + frame" where
  "pd_read_csv env text sep na_values usecols =
     bind_r (read_table env sep text) (\<lambda>tab.
       let header = fst tab; na = na_values @ default_na env in
       if \<not> set usecols \<subseteq> set header then Inl ValueError
       else Inr \<lparr>columns = filter (\<lambda>c. c \<in> set usecols) header,
                 rows = zip [0 ..< length (snd tab)]
                          (map (\<lambda>fields. filter (\<lambda>cv. fst cv \<in> set usecols)
                                            (zip header (map (to_cell na) fields)))
                               (snd tab))\<rparr>)"

subsection \<open>Reading the two inputs\<close>

definition read_encrypted_json :: "env \<Rightarrow> string \<Rightarrow> error + json" where
  "read_encrypted_json env fname = bind_r (gpg_stdout env fname) (json_loads env)"

definition read_encrypted_tsv :: "env \<Rightarrow> string \<Rightarrow> error + frame" where
  "read_encrypted_tsv env fname =
     bind_r (gpg_stdout env fname) (\<lambda>text.
       pd_read_csv env text (CHR 0x09) [''na'']
         [''module_id'', ''student_id'', ''state'', ''created'', ''modified'', ''done''])"

definition structure_fname :: "string \<Rightarrow> string \<Rightarrow> string" where
  "structure_fname database_prefix course_name =
     database_prefix @ course_name @ ''-course_structure-prod-analytics.json.gpg''"

definition student_fname :: "string \<Rightarrow> string \<Rightarrow> string" where
  "student_fname database_prefix course_name =
     database_prefix @ course_name @ ''-courseware_studentmodule-prod-analytics.sql.gpg''"

text \<open>
  \<^verbatim>\<open>__init__\<close>: the table read becomes a new frame of the store; an error of either
  reader or of the extraction leaves no object.
\<close>

definition init :: "env \<Rightarrow> string \<Rightarrow> string \<Rightarrow> world \<Rightarrow> (error + UngradedProblems) \<times> world" where
  "init env database_prefix course_name w =
     (case read_encrypted_json env (structure_fname database_prefix course_name) of
        Inl e \<Rightarrow> (Inl e, w)
      | Inr cs \<Rightarrow>
          (case read_encrypted_tsv env (student_fname database_prefix course_name) of
             Inl e \<Rightarrow> (Inl e, w)
           | Inr df \<Rightarrow>
               (let w' = w\<lparr>frames := frames w @ [df]\<rparr> in
                (extract_ungraded
                   \<lparr>course_structure = cs, student_df = length (frames w), ungraded = []\<rparr>,
                 w'))))"

section \<open>Writing the records\<close>

definition extract_student_answers :: "env \<Rightarrow> cell \<Rightarrow> error + json" where
  "extract_student_answers env s =
     (case s of
        Val (JStr str) \<Rightarrow>
          bind_r (unicode_escape env str) (\<lambda>s'.
          bind_r (json_loads env s') (\<lambda>data.
            case data of
              JObj kvs \<Rightarrow>
                Inr (case map_of kvs ''student_answers'' of None \<Rightarrow> JObj [] | Some v \<Rightarrow> v)
            | _ \<Rightarrow> Inl AttributeError))
      | _ \<Rightarrow> Inl AttributeError)"

text \<open>\<^verbatim>\<open>os.path.join(a, b)\<close> of \<^verbatim>\<open>posixpath\<close>.\<close>

definition path_join :: "string \<Rightarrow> string \<Rightarrow> string" where
  "path_join a b =
     (if b \<noteq> [] \<and> hd b = CHR ''/'' then b
      else if a = [] \<or> last a = CHR ''/'' then a @ b
      else a @ ''/'' @ b)"

text \<open>A \<^verbatim>\<open>{}\<close> field of \<^verbatim>\<open>str.format\<close>: a string as it is, any other value through \<^verbatim>\<open>str()\<close>.\<close>

definition py_format :: "env \<Rightarrow> json \<Rightarrow> string" where
  "py_format env v = (case v of JStr s \<Rightarrow> s | _ \<Rightarrow> py_str env v)"

definition outfname :: "env \<Rightarrow> json \<Rightarrow> json \<Rightarrow> string" where
  "outfname env section name =
     ''ungraded_problems/'' @ py_format env section @ ''/'' @ py_format env name @ ''.tsv''"

text \<open>A call of the operating system: refused with an error, or recorded.\<close>

definition os_call :: "env \<Rightarrow> fsop \<Rightarrow> pystate \<Rightarrow> error option \<times> pystate" where
  "os_call env call st =
     (case os_error env (fs (snd st)) call of
        Some e \<Rightarrow> (Some e, st)
      | None \<Rightarrow> (None, (fst st, (snd st)\<lparr>fs := fs (snd st) @ [call]\<rparr>)))"

text \<open>
  The body of the inner loop of \<^verbatim>\<open>write_records\<close>.  \<open>raw_records\<close> is the address of
  the frame that \<^verbatim>\<open>.loc\<close> creates; \<^verbatim>\<open>raw_records.state.apply(self.extract_student_answers)\<close>
  applies the function to every cell of the column \<^verbatim>\<open>state\<close> and then converts the
  results to the dtype pandas infers for them; the resulting column is assigned as
  \<^verbatim>\<open>student_answers\<close> to the frame at that address.
\<close>

definition write_problem :: "env \<Rightarrow> json \<Rightarrow> json \<times> json \<Rightarrow> pystate \<Rightarrow> error option \<times> pystate" where
  "write_problem env section problem st =
     (let name = fst problem; pid = snd problem; self = fst st; w = snd st in
      case frame_col (frames w ! student_df self) ''module_id'' of
        Inl e \<Rightarrow> (Some e, st)
      | Inr module_id \<Rightarrow>
          (let curr_student_rows = series_eq module_id pid;
               raw_records = length (frames w);
               w1 = w\<lparr>frames := frames w @ [loc_mask (frames w ! student_df self) curr_student_rows]\<rparr>
           in
           case bind_r (frame_col (frames w1 ! raw_records) ''state'')
                  (map_r (extract_student_answers env)) of
             Inl e \<Rightarrow> (Some e, (self, w1))
           | Inr answers \<Rightarrow>
               (let w2 = w1\<lparr>frames := (frames w1)
                           [raw_records := set_col (frames w1 ! raw_records) ''student_answers''
                                             (map (convert_objects env answers) answers)]\<rparr>
                in os_call env (ToCsv (outfname env section name) (frames w2 ! raw_records))
                     (self, w2))))"

text \<open>
  The body of the outer loop.  \<^verbatim>\<open>path.join\<close> raises a TypeError for a section name
  that is no string.
\<close>

definition write_section :: "env \<Rightarrow> string \<Rightarrow> json \<times> problems \<Rightarrow> pystate \<Rightarrow> error option \<times> pystate" where
  "write_section env base_dir item st =
     (case fst item of
        JStr section \<Rightarrow>
          (case os_call env (MakeDirs (path_join base_dir section)) st of
             (Some e, st') \<Rightarrow> (Some e, st')
           | (None, st') \<Rightarrow> for_each_io (write_problem env (fst item)) (snd item) st')
      | _ \<Rightarrow> (Some TypeError, st))"

definition write_records :: "env \<Rightarrow> string \<Rightarrow> pystate \<Rightarrow> error option \<times> pystate" where
  "write_records env base_dir st =
     for_each_io (write_section env base_dir) (ungraded (fst st)) st"

text \<open>The script run as a program.\<close>

definition main :: "env \<Rightarrow> world \<Rightarrow> error option \<times> world" where
  "main env w =
     (case init env ''../../database/berkeleyx-2015-02-01/'' ''BerkeleyX-GG101x-1T2014'' w of
        (Inl e, w') \<Rightarrow> (Some e, w')
      | (Inr problems_obj, w') \<Rightarrow>
          (case write_records env ''ungraded_problems'' (problems_obj, w') of
             (r, st) \<Rightarrow> (r, snd st)))"

section \<open>The claims in the program's terms\<close>

text \<open>
  The definitions of this section are not translations of the source: they say, in the
  operators of the program, what the claims say, so that the theorems can compare them
  with the functions above.
\<close>

subsection \<open>Which problems are reachable\<close>

text \<open>
  The problems recorded in a mapping; the items of a course structure; a top-level
  container that is visited (\<^verbatim>\<open>category\<close> is \<^verbatim>\<open>'sequential'\<close> and \<^verbatim>\<open>'graded' not in metadata\<close>);
  the children of a node (what iterating its \<^verbatim>\<open>children\<close> gives, none when there are
  none); a node of category \<^verbatim>\<open>'problem'\<close>; the display name in the metadata of a node.
\<close>

definition recorded :: "(json \<times> problems) list \<Rightarrow> (json \<times> json) set" where
  "recorded u = set (concat (map snd u))"

definition nodes :: "json \<Rightarrow> (string \<times> json) list" where
  "nodes cs = (case cs of JObj items \<Rightarrow> items | _ \<Rightarrow> [])"

definition top_level_ungraded :: "json \<Rightarrow> bool" where
  "top_level_ungraded desc \<longleftrightarrow>
     py_getitem desc (JStr ''category'') = Inr (JStr ''sequential'') \<and>
     bind_r (py_getitem desc (JStr ''metadata'')) (py_in ''graded'') = Inr False"

definition child_ids :: "json \<Rightarrow> json list" where
  "child_ids desc =
     (case bind_r (py_getitem desc (JStr ''children'')) py_iter of
        Inr ids \<Rightarrow> ids | Inl e \<Rightarrow> [])"

definition is_problem :: "json \<Rightarrow> bool" where
  "is_problem child \<longleftrightarrow> py_getitem child (JStr ''category'') = Inr (JStr ''problem'')"

definition has_display_name :: "json \<Rightarrow> json \<Rightarrow> bool" where
  "has_display_name desc name \<longleftrightarrow>
     bind_r (py_getitem desc (JStr ''metadata'')) (\<lambda>m. py_getitem m (JStr ''display_name'')) = Inr name"

text \<open>
  The problems that a child id, a vertical, the id of a vertical and an item of the
  course structure contribute.
\<close>

definition child_problems :: "json \<Rightarrow> json \<Rightarrow> (json \<times> json) set" where
  "child_problems cs cid =
     {(name, cid) | name child. py_getitem cs cid = Inr child \<and> is_problem child \<and> has_display_name child name}"

definition vert_problems :: "json \<Rightarrow> json \<Rightarrow> (json \<times> json) set" where
  "vert_problems cs vert = (\<Union>cid\<in>set (child_ids vert). child_problems cs cid)"

definition vid_problems :: "json \<Rightarrow> json \<Rightarrow> (json \<times> json) set" where
  "vid_problems cs vid = {p. \<exists>vert. py_getitem cs vid = Inr vert \<and> p \<in> vert_problems cs vert}"

definition node_problems :: "json \<Rightarrow> json \<Rightarrow> (json \<times> json) set" where
  "node_problems cs desc =
     (if top_level_ungraded desc then (\<Union>vid\<in>set (child_ids desc). vid_problems cs vid) else {})"

subsection \<open>When the extraction returns\<close>

text \<open>
  The condition under which \<^verbatim>\<open>extract_ungraded\<close> returns, stated node by node: for a
  child of a vertical, for a vertical, for an item and for the whole course structure.
\<close>

definition child_ok :: "json \<Rightarrow> json \<Rightarrow> json \<Rightarrow> bool" where
  "child_ok cs vert cid \<longleftrightarrow>
     (\<exists>child cat. py_getitem cs cid = Inr child \<and> py_getitem child (JStr ''category'') = Inr cat \<and>
        (cat = JStr ''problem'' \<longrightarrow>
           (\<exists>vert_name. has_display_name vert vert_name \<and> hashable vert_name) \<and>
           (\<exists>name. has_display_name child name)))"

definition vert_ok :: "json \<Rightarrow> json \<Rightarrow> bool" where
  "vert_ok cs vert \<longleftrightarrow>
     (\<exists>children cids. py_getitem vert (JStr ''children'') = Inr children \<and>
        py_iter children = Inr cids \<and> (\<forall>cid\<in>set cids. child_ok cs vert cid))"

definition node_ok :: "json \<Rightarrow> json \<Rightarrow> bool" where
  "node_ok cs desc \<longleftrightarrow>
     (\<exists>cat. py_getitem desc (JStr ''category'') = Inr cat \<and>
        (cat = JStr ''sequential'' \<longrightarrow>
           (\<exists>md graded. py_getitem desc (JStr ''metadata'') = Inr md \<and>
              py_in ''graded'' md = Inr graded \<and>
              (\<not> graded \<longrightarrow>
                 (\<exists>children vids. py_getitem desc (JStr ''children'') = Inr children \<and>
                    py_iter children = Inr vids \<and>
                    (\<forall>vid\<in>set vids. \<exists>vert. py_getitem cs vid = Inr vert \<and> vert_ok cs vert))))))"

definition extraction_ok :: "json \<Rightarrow> bool" where
  "extraction_ok cs \<longleftrightarrow> (\<exists>items. cs = JObj items \<and> (\<forall>item\<in>set items. node_ok cs (snd item)))"

text \<open>
  A course structure of the expected shape: every node is a dict, a \<^verbatim>\<open>metadata\<close> is a
  dict whose \<^verbatim>\<open>display_name\<close> can be hashed, and a \<^verbatim>\<open>children\<close> is a list of values that
  can be hashed.
\<close>

definition typed_node :: "json \<Rightarrow> bool" where
  "typed_node desc \<longleftrightarrow>
     (\<exists>kvs. desc = JObj kvs \<and>
        (\<forall>md. map_of kvs ''metadata'' = Some md \<longrightarrow>
           (\<exists>mkvs. md = JObj mkvs \<and>
              (\<forall>name. map_of mkvs ''display_name'' = Some name \<longrightarrow> hashable name))) \<and>
        (\<forall>children. map_of kvs ''children'' = Some children \<longrightarrow>
           (\<exists>ids. children = JArr ids \<and> (\<forall>i\<in>set ids. hashable i))))"

definition typed_structure :: "json \<Rightarrow> bool" where
  "typed_structure cs \<longleftrightarrow> (\<exists>items. cs = JObj items \<and> (\<forall>item\<in>set items. typed_node (snd item)))"

text \<open>
  The precondition as claim C7 words it: every node has the keys \<^verbatim>\<open>category\<close> and
  \<^verbatim>\<open>metadata\<close>; every ungraded \<^verbatim>\<open>sequential\<close> node and every vertical it refers to has
  a list \<^verbatim>\<open>children\<close>; every id in those lists is a key of the course structure.
\<close>

fun has_key :: "json \<Rightarrow> string \<Rightarrow> bool" where
  "has_key (JObj kvs) k = (k \<in> set (map fst kvs))"
| "has_key _ k = False"

fun children_list :: "json \<Rightarrow> json list option" where
  "children_list (JObj kvs) =
     (case map_of kvs ''children'' of Some (JArr ids) \<Rightarrow> Some ids | _ \<Rightarrow> None)"
| "children_list _ = None"

fun is_key :: "json \<Rightarrow> json \<Rightarrow> bool" where
  "is_key cs (JStr s) = has_key cs s"
| "is_key cs _ = False"

definition claimed_precondition :: "json \<Rightarrow> bool" where
  "claimed_precondition cs \<longleftrightarrow>
     (\<forall>item\<in>set (nodes cs). has_key (snd item) ''category'' \<and> has_key (snd item) ''metadata'') \<and>
     (\<forall>item\<in>set (nodes cs). top_level_ungraded (snd item) \<longrightarrow>
        (\<exists>vids. children_list (snd item) = Some vids \<and>
           (\<forall>vid\<in>set vids. is_key cs vid \<and>
              (\<forall>vert. py_getitem cs vid = Inr vert \<longrightarrow>
                 (\<exists>cids. children_list vert = Some cids \<and> (\<forall>cid\<in>set cids. is_key cs cid))))))"

subsection \<open>What is written\<close>

text \<open>
  The frame that \<^verbatim>\<open>write_records\<close> builds for one problem, computed without the store;
  the rows of a frame whose \<^verbatim>\<open>module_id\<close> is a given id; a row without the column
  \<^verbatim>\<open>student_answers\<close>.
\<close>

definition problem_records :: "env \<Rightarrow> frame \<Rightarrow> json \<Rightarrow> error + frame" where
  "problem_records env df pid =
     bind_r (frame_col df ''module_id'') (\<lambda>module_id.
       let raw_records = loc_mask df (series_eq module_id pid) in
       bind_r (frame_col raw_records ''state'') (\<lambda>states.
       bind_r (map_r (extract_student_answers env) states) (\<lambda>answers.
         Inr (set_col raw_records ''student_answers''
                (map (convert_objects env answers) answers)))))"

definition selected_rows :: "frame \<Rightarrow> json \<Rightarrow> (nat \<times> (string \<times> cell) list) list" where
  "selected_rows df pid = filter (\<lambda>r. map_of (snd r) ''module_id'' = Some (Val pid)) (rows df)"

definition without_answers :: "nat \<times> (string \<times> cell) list \<Rightarrow> nat \<times> (string \<times> cell) list" where
  "without_answers r = (fst r, filter (\<lambda>kv. fst kv \<noteq> ''student_answers'') (snd r))"

text \<open>
  The cell of a row in the column \<^verbatim>\<open>state\<close>; the results of \<^verbatim>\<open>extract_student_answers\<close>
  on the rows of a frame, in order, which are the values that pandas' dtype inference
  looks at; what pandas does to results with a dict among them: the column stays a
  column of objects, each result stored as it is.
\<close>

definition keeps_dicts :: "env \<Rightarrow> bool" where
  "keeps_dicts env \<longleftrightarrow>
     (\<forall>results v. (\<exists>kvs. JObj kvs \<in> set results) \<longrightarrow> convert_objects env results v = Val v)"

definition state_cell :: "nat \<times> (string \<times> cell) list \<Rightarrow> cell" where
  "state_cell r = (case map_of (snd r) ''state'' of None \<Rightarrow> NaN | Some v \<Rightarrow> v)"

definition file_answers :: "env \<Rightarrow> frame \<Rightarrow> json list" where
  "file_answers env f =
     map (\<lambda>r. case extract_student_answers env (state_cell r) of Inr a \<Rightarrow> a | Inl e \<Rightarrow> JNull)
       (rows f)"

text \<open>
  The calls that \<^verbatim>\<open>write_records\<close> makes when nothing fails, as a function of the
  student table and the mapping: for one problem, for one section, for all sections.
\<close>

definition problem_call :: "env \<Rightarrow> frame \<Rightarrow> json \<Rightarrow> json \<times> json \<Rightarrow> error + fsop" where
  "problem_call env df section p =
     bind_r (problem_records env df (snd p)) (\<lambda>out. Inr (ToCsv (outfname env section (fst p)) out))"

definition section_calls :: "env \<Rightarrow> string \<Rightarrow> frame \<Rightarrow> json \<times> problems \<Rightarrow> error + fsop list" where
  "section_calls env base_dir df item =
     (case fst item of
        JStr section \<Rightarrow>
          bind_r (map_r (problem_call env df (fst item)) (snd item)) (\<lambda>calls.
            Inr (MakeDirs (path_join base_dir section) # calls))
      | _ \<Rightarrow> Inl TypeError)"

definition expected_calls :: "env \<Rightarrow> string \<Rightarrow> frame \<Rightarrow> (json \<times> problems) list \<Rightarrow> error + fsop list" where
  "expected_calls env base_dir df u =
     bind_r (map_r (section_calls env base_dir df) u) (\<lambda>css. Inr (concat css))"

text \<open>
  Reading a list of calls: the files written and the directories created, in order; the
  calls made between two worlds; all triples (section, name, id) of a mapping in the
  order of the two loops; the content of a file after the calls, which is what the last
  \<^verbatim>\<open>to_csv\<close> to its path wrote.
\<close>

fun written_files :: "fsop list \<Rightarrow> (string \<times> frame) list" where
  "written_files [] = []"
| "written_files (ToCsv path out # calls) = (path, out) # written_files calls"
| "written_files (MakeDirs dir # calls) = written_files calls"

fun made_dirs :: "fsop list \<Rightarrow> string list" where
  "made_dirs [] = []"
| "made_dirs (MakeDirs dir # calls) = dir # made_dirs calls"
| "made_dirs (ToCsv path out # calls) = made_dirs calls"

definition new_calls :: "world \<Rightarrow> world \<Rightarrow> fsop list" where
  "new_calls w w' = drop (length (fs w)) (fs w')"

definition all_problems :: "(json \<times> problems) list \<Rightarrow> (json \<times> json \<times> json) list" where
  "all_problems u = concat (map (\<lambda>item. map (\<lambda>p. (fst item, fst p, snd p)) (snd item)) u)"

definition file_content :: "fsop list \<Rightarrow> string \<Rightarrow> frame option" where
  "file_content calls path =
     (case filter (\<lambda>f. fst f = path) (written_files calls) of
        [] \<Rightarrow> None
      | f # rest \<Rightarrow> Some (snd (last (f # rest))))"

subsection \<open>Directories\<close>

text \<open>
  The components of a path, between its slashes; going from a directory into a
  component (staying for an empty one and for \<^verbatim>\<open>.\<close>, going up for \<^verbatim>\<open>..\<close>); the
  directory that a path denotes, as the list of names from the root, a relative path
  starting at the working directory; the directory that holds the file of a path.  This
  is how the system resolves a path none of whose components is a symbolic link.
\<close>

fun split_path :: "string \<Rightarrow> string list" where
  "split_path [] = [[]]"
| "split_path (c # cs) =
     (if c = CHR ''/'' then [] # split_path cs
      else (case split_path cs of [] \<Rightarrow> [[c]] | name # names \<Rightarrow> (c # name) # names))"

definition enter :: "string list \<Rightarrow> string \<Rightarrow> string list" where
  "enter dir name =
     (if name = [] \<or> name = ''.'' then dir
      else if name = ''..'' then butlast dir
      else dir @ [name])"

definition start_dir :: "string list \<Rightarrow> string \<Rightarrow> string list" where
  "start_dir cwd p = (if p \<noteq> [] \<and> hd p = CHR ''/'' then [] else cwd)"

definition resolve :: "string list \<Rightarrow> string \<Rightarrow> string list" where
  "resolve cwd p = foldl enter (start_dir cwd p) (split_path p)"

definition file_dir :: "string list \<Rightarrow> string \<Rightarrow> string list" where
  "file_dir cwd p = foldl enter (start_dir cwd p) (butlast (split_path p))"

subsection \<open>Sections as dict entries\<close>

text \<open>
  The list under a key of \<^verbatim>\<open>self.ungraded\<close> (empty when the key is absent); the
  problems of a vertical as a list, in the order of its children.
\<close>

definition dict_get :: "(json \<times> 'v list) list \<Rightarrow> json \<Rightarrow> 'v list" where
  "dict_get d k = (case find (\<lambda>kv. key_eq (fst kv) k) d of None \<Rightarrow> [] | Some kv \<Rightarrow> snd kv)"

definition child_problem :: "json \<Rightarrow> json \<Rightarrow> problems" where
  "child_problem cs cid =
     (case py_getitem cs cid of
        Inl e \<Rightarrow> []
      | Inr child \<Rightarrow>
          if is_problem child then
            (case bind_r (py_getitem child (JStr ''metadata''))
                    (\<lambda>m. py_getitem m (JStr ''display_name'')) of
               Inl e \<Rightarrow> []
             | Inr name \<Rightarrow> [(name, cid)])
          else [])"

definition problems_of :: "json \<Rightarrow> json \<Rightarrow> problems" where
  "problems_of cs vert = concat (map (child_problem cs) (child_ids vert))"

subsection \<open>The inputs\<close>

text \<open>
  \<^verbatim>\<open>gpg\<close> gives no content for a file: it could not be started, or it printed nothing.
  The six columns the script keeps.
\<close>

definition no_content :: "env \<Rightarrow> string \<Rightarrow> bool" where
  "no_content env fname \<longleftrightarrow> (case gpg_stdout env fname of Inl e \<Rightarrow> True | Inr text \<Rightarrow> text = [])"

definition usecols :: "string list" where
  "usecols = [''module_id'', ''student_id'', ''state'', ''created'', ''modified'', ''done'']"

subsection \<open>Examples\<close>

text \<open>
  Small inputs on which the theorems are instantiated: course structures, an
  environment in which nothing fails, a student table of two rows, and worlds.
\<close>

definition example_node :: "string \<Rightarrow> (string \<times> json) list \<Rightarrow> string list \<Rightarrow> json" where
  "example_node cat md ch =
     JObj [(''category'', JStr cat), (''metadata'', JObj md), (''children'', JArr (map JStr ch))]"

definition example_course :: json where
  "example_course = JObj [
     (''s1'', example_node ''sequential'' [(''display_name'', JStr ''Week 1'')] [''v1'']),
     (''s2'', example_node ''sequential'' [(''graded'', JBool True)] [''v2'']),
     (''v1'', example_node ''vertical'' [(''display_name'', JStr ''Intro'')] [''p1'', ''x1'']),
     (''v2'', example_node ''vertical'' [(''display_name'', JStr ''Homework'')] [''p2'']),
     (''p1'', example_node ''problem'' [(''display_name'', JStr ''Q1'')] []),
     (''p2'', example_node ''problem'' [(''display_name'', JStr ''Q2'')] []),
     (''x1'', JObj [(''category'', JStr ''video'')])]"

definition example_self :: UngradedProblems where
  "example_self = \<lparr>course_structure = example_course, student_df = 0, ungraded = []\<rparr>"

definition example_extracted :: UngradedProblems where
  "example_extracted = example_self\<lparr>ungraded := [(JStr ''Intro'', [(JStr ''Q1'', JStr ''p1'')])]\<rparr>"

definition example_twins :: json where
  "example_twins = JObj [
     (''s1'', example_node ''sequential'' [(''display_name'', JStr ''Week 1'')] [''v1'', ''v2'']),
     (''v1'', example_node ''vertical'' [(''display_name'', JStr ''Intro'')] [''p1'']),
     (''v2'', example_node ''vertical'' [(''display_name'', JStr ''Intro'')] [''p2'']),
     (''p1'', example_node ''problem'' [(''display_name'', JStr ''Q1'')] []),
     (''p2'', example_node ''problem'' [(''display_name'', JStr ''Q1'')] [])]"

definition example_twins_self :: "(json \<times> problems) list \<Rightarrow> UngradedProblems" where
  "example_twins_self u = \<lparr>course_structure = example_twins, student_df = 0, ungraded = u\<rparr>"

definition example_v1 :: json where
  "example_v1 = example_node ''vertical'' [(''display_name'', JStr ''Intro'')] [''p1'']"

definition example_v2 :: json where
  "example_v2 = example_node ''vertical'' [(''display_name'', JStr ''Intro'')] [''p2'']"

definition example_twins_extracted :: UngradedProblems where
  "example_twins_extracted =
     example_twins_self [(JStr ''Intro'', [(JStr ''Q1'', JStr ''p1''), (JStr ''Q1'', JStr ''p2'')])]"

definition example_unnamed :: json where
  "example_unnamed = JObj [
     (''s1'', example_node ''sequential'' [] [''v1'']),
     (''v1'', example_node ''vertical'' [] [''p1'']),
     (''p1'', example_node ''problem'' [] [])]"

definition example_chapter :: json where
  "example_chapter = JObj [(''c1'', JObj [(''category'', JStr ''chapter'')])]"

definition example_dangling :: json where
  "example_dangling = JObj [(''s1'', example_node ''sequential'' [] [''v9''])]"

text \<open>
  The dtype inference of pandas on results that a float holds exactly: a column of
  numbers with a None or a float among them becomes a column of floats, None becoming
  NaN; every other column (one with a string, a list, a dict or a boolean in it, one of
  integers only, one of None only) keeps its values.
\<close>

fun py_number :: "json \<Rightarrow> bool" where
  "py_number (JInt i) = True"
| "py_number (JFloat r) = True"
| "py_number _ = False"

fun py_float :: "json \<Rightarrow> bool" where
  "py_float (JFloat r) = True"
| "py_float _ = False"

definition example_convert :: "json list \<Rightarrow> json \<Rightarrow> cell" where
  "example_convert results v =
     (if (\<forall>x\<in>set results. x = JNull \<or> py_number x) \<and> (\<exists>x\<in>set results. py_number x) \<and>
         (\<exists>x\<in>set results. x = JNull \<or> py_float x)
      then (case v of JNull \<Rightarrow> NaN | JInt i \<Rightarrow> Val (JFloat (of_int i)) | _ \<Rightarrow> Val v)
      else Val v)"

definition example_env :: env where
  "example_env =
     \<lparr>gpg_stdout = (\<lambda>fname. Inr []),
      json_loads = (\<lambda>text. if text = ''{}'' then Inr (JObj []) else Inl JSONDecodeError),
      read_table = (\<lambda>sep text. if text = [] then Inl EmptyDataError else Inr ([], [])),
      default_na = ['''', ''NaN''],
      unicode_escape = Inr,
      py_str = (\<lambda>v. ''None''),
      os_error = (\<lambda>history call. None),
      convert_objects = example_convert\<rparr>"

definition example_tsv_env :: env where
  "example_tsv_env = example_env
     \<lparr>gpg_stdout := (\<lambda>fname. Inr ''decrypted text''),
      read_table := (\<lambda>sep text.
        Inr ([''id'', ''module_id'', ''student_id'', ''state'', ''grade'', ''created'', ''modified'', ''done''],
             [[''1'', ''p1'', ''7'', ''{}'', ''na'', ''2014'', ''na'', ''NaN'']]))\<rparr>"

definition example_os2 :: "fsop list \<Rightarrow> fsop \<Rightarrow> error option" where
  "example_os2 history call = (if call = MakeDirs ''forbidden'' then Some OSError else None)"

definition example_row :: "string \<Rightarrow> string \<Rightarrow> (string \<times> cell) list" where
  "example_row pid student =
     [(''module_id'', Val (JStr pid)), (''student_id'', Val (JStr student)),
      (''state'', Val (JStr ''{}'')), (''created'', NaN), (''modified'', NaN),
      (''done'', NaN)]"

definition example_df :: frame where
  "example_df =
     \<lparr>columns = [''module_id'', ''student_id'', ''state'', ''created'', ''modified'', ''done''],
      rows = [(0, example_row ''p1'' ''7''), (1, example_row ''p2'' ''7'')]\<rparr>"

definition example_out :: frame where
  "example_out =
     \<lparr>columns = [''module_id'', ''student_id'', ''state'', ''created'', ''modified'', ''done'',
                 ''student_answers''],
      rows = [(0, example_row ''p1'' ''7'' @ [(''student_answers'', Val (JObj []))])]\<rparr>"

definition example_world :: world where
  "example_world = \<lparr>frames = [example_df], fs = []\<rparr>"

definition example_world2 :: world where
  "example_world2 = \<lparr>frames = [\<lparr>columns = [], rows = []\<rparr>, example_df],
                      fs = [MakeDirs ''earlier'']\<rparr>"

definition example_self2 :: UngradedProblems where
  "example_self2 = example_self\<lparr>student_df := 1, ungraded := [(JStr ''stale'', [])]\<rparr>"

text \<open>
  Two problems \<open>Q1\<close> and \<open>Q2\<close> of one vertical, and a student table with two rows for
  each: the states of the first problem hold a dict of answers and no answers at all,
  those of the second hold the number 1 and \<^verbatim>\<open>null\<close>.  The parser of the example reads
  these four texts.
\<close>

definition example_pair :: json where
  "example_pair = JObj [
     (''s1'', example_node ''sequential'' [(''display_name'', JStr ''Week 1'')] [''v1'']),
     (''v1'', example_node ''vertical'' [(''display_name'', JStr ''Intro'')] [''p1'', ''p2'']),
     (''p1'', example_node ''problem'' [(''display_name'', JStr ''Q1'')] []),
     (''p2'', example_node ''problem'' [(''display_name'', JStr ''Q2'')] [])]"

definition example_pair_extracted :: UngradedProblems where
  "example_pair_extracted =
     \<lparr>course_structure = example_pair, student_df = 0,
      ungraded = [(JStr ''Intro'', [(JStr ''Q1'', JStr ''p1''), (JStr ''Q2'', JStr ''p2'')])]\<rparr>"

definition quoted :: "string \<Rightarrow> string" where
  "quoted s = CHR 0x22 # s @ [CHR 0x22]"

definition example_state :: "string \<Rightarrow> string" where
  "example_state v = ''{'' @ quoted ''student_answers'' @ '': '' @ v @ ''}''"

definition example_choice :: string where
  "example_choice = ''{'' @ quoted ''q'' @ '': '' @ quoted ''a'' @ ''}''"

definition example_loads :: "string \<Rightarrow> error + json" where
  "example_loads text =
     (if text = ''{}'' then Inr (JObj [])
      else if text = example_state example_choice
        then Inr (JObj [(''student_answers'', JObj [(''q'', JStr ''a'')])])
      else if text = example_state ''1'' then Inr (JObj [(''student_answers'', JInt 1)])
      else if text = example_state ''null'' then Inr (JObj [(''student_answers'', JNull)])
      else Inl JSONDecodeError)"

definition example_answers_env :: env where
  "example_answers_env = example_env\<lparr>json_loads := example_loads\<rparr>"

definition example_state_row :: "string \<Rightarrow> string \<Rightarrow> (string \<times> cell) list" where
  "example_state_row pid state =
     [(''module_id'', Val (JStr pid)), (''student_id'', Val (JStr ''7'')),
      (''state'', Val (JStr state)), (''created'', NaN), (''modified'', NaN),
      (''done'', NaN)]"

definition example_answers_df :: frame where
  "example_answers_df =
     \<lparr>columns = [''module_id'', ''student_id'', ''state'', ''created'', ''modified'', ''done''],
      rows = [(0, example_state_row ''p1'' (example_state example_choice)),
              (1, example_state_row ''p1'' ''{}''),
              (2, example_state_row ''p2'' (example_state ''1'')),
              (3, example_state_row ''p2'' (example_state ''null''))]\<rparr>"

definition example_answers_out :: frame where
  "example_answers_out =
     \<lparr>columns = [''module_id'', ''student_id'', ''state'', ''created'', ''modified'', ''done'',
                 ''student_answers''],
      rows = [(0, example_state_row ''p1'' (example_state example_choice) @
                    [(''student_answers'', Val (JObj [(''q'', JStr ''a'')]))]),
              (1, example_state_row ''p1'' ''{}'' @ [(''student_answers'', Val (JObj []))])]\<rparr>"

definition example_answers_world :: world where
  "example_answers_world = \<lparr>frames = [example_answers_df], fs = []\<rparr>"

text \<open>
  An operating system in which a call fails only for a missing directory, run in the
  working directory \<^verbatim>\<open>/work\<close>: \<^verbatim>\<open>makedirs\<close> creates the directories on its way,
  \<^verbatim>\<open>to_csv\<close> fails unless every directory on the way to the file exists.  The
  directories are lists of names from the root; \<open>dirs\<close> are those that exist before
  the first call.
\<close>

fun visited :: "string list \<Rightarrow> string list \<Rightarrow> string list list" where
  "visited dir [] = [dir]"
| "visited dir (name # names) = dir # visited (enter dir name) names"

fun existing :: "string list \<Rightarrow> string list list \<Rightarrow> fsop list \<Rightarrow> string list list" where
  "existing cwd dirs [] = dirs"
| "existing cwd dirs (MakeDirs p # calls) =
     existing cwd (dirs @ visited (start_dir cwd p) (split_path p)) calls"
| "existing cwd dirs (ToCsv p out # calls) = existing cwd dirs calls"

definition example_posix :: "string list list \<Rightarrow> fsop list \<Rightarrow> fsop \<Rightarrow> error option" where
  "example_posix dirs history call =
     (case call of
        MakeDirs p \<Rightarrow> None
      | ToCsv p out \<Rightarrow>
          if list_all (\<lambda>d. d \<in> set (existing [''work''] dirs history))
               (visited (start_dir [''work''] p) (butlast (split_path p)))
          then None else Some OSError)"

text \<open>
  A working directory with nothing in it; one with the directory \<^verbatim>\<open>ungraded_problems\<close>
  in it; one with \<^verbatim>\<open>ungraded_problems/Intro\<close> as well.
\<close>

definition example_fresh :: "string list list" where
  "example_fresh = [[], [''work'']]"


definition example_prepared :: "string list list" where
  "example_prepared =
     [[], [''work''], [''work'', ''ungraded_problems''], [''work'', ''ungraded_problems'', ''Intro'']]"

definition example_posix_env :: "string list list \<Rightarrow> env" where
  "example_posix_env dirs = example_env\<lparr>os_error := example_posix dirs\<rparr>"



section \<open>Extraction: which problems are recorded\<close>

lemma bind_r_Inr: "bind_r m f = Inr y \<longleftrightarrow> (\<exists>x. m = Inr x \<and> f x = Inr y)"
  by (cases m) auto

lemma bind_r_Inl: "bind_r m f = Inl e \<longleftrightarrow> (m = Inl e \<or> (\<exists>x. m = Inr x \<and> f x = Inl e))"
  by (cases m) auto

lemma set_concat_setdefault_append:
  "set (concat (map snd (setdefault_append k v d))) = insert v (set (concat (map snd d)))"
proof (induction d)
  case Nil
  show ?case by simp
next
  case (Cons kv d)
  obtain k' vs where kv: "kv = (k', vs)" by (cases kv)
  show ?case
  proof (cases "key_eq k' k")
    case True
    then show ?thesis by (simp add: kv)
  next
    case False
    then show ?thesis using Cons.IH by (simp add: kv)
  qed
qed

lemma recorded_setdefault_append:
  "recorded (setdefault_append k v d) = insert v (recorded d)"
  unfolding recorded_def by (rule set_concat_setdefault_append)

lemma for_each_collect:
  assumes "for_each body xs s = Inr s'" and "P s"
    and "\<And>x t t'. x \<in> set xs \<Longrightarrow> P t \<Longrightarrow> body x t = Inr t' \<Longrightarrow> P t' \<and> f t' = f t \<union> g x"
  shows "P s' \<and> f s' = f s \<union> (\<Union>x\<in>set xs. g x)"
  using assms
proof (induction xs arbitrary: s)
  case Nil
  then show ?case by simp
next
  case (Cons x xs)
  from Cons.prems(1) obtain t where t: "body x s = Inr t" and rest: "for_each body xs t = Inr s'"
    by (auto simp: bind_r_Inr)
  from Cons.prems(3)[OF _ Cons.prems(2) t] have Pt: "P t" and ft: "f t = f s \<union> g x" by auto
  have "P s' \<and> f s' = f t \<union> (\<Union>x\<in>set xs. g x)"
    by (rule Cons.IH[OF rest Pt]) (use Cons.prems(3) in auto)
  with ft show ?case by auto
qed

lemma add_child_recorded:
  assumes "add_child vert cid self = Inr self'"
  shows "course_structure self' = course_structure self \<and>
         recorded (ungraded self') = recorded (ungraded self) \<union> child_problems (course_structure self) cid"
proof -
  from assms obtain child cat where child: "py_getitem (course_structure self) cid = Inr child"
    and cat: "py_getitem child (JStr ''category'') = Inr cat"
    by (auto simp: add_child_def bind_r_Inr)
  show ?thesis
  proof (cases "cat = JStr ''problem''")
    case False
    with assms child cat have "self' = self" by (simp add: add_child_def)
    moreover from False child cat have "child_problems (course_structure self) cid = {}"
      by (auto simp: child_problems_def is_problem_def)
    ultimately show ?thesis by simp
  next
    case True
    with assms child cat obtain vn cm name where
      cm: "py_getitem child (JStr ''metadata'') = Inr cm"
      and name: "py_getitem cm (JStr ''display_name'') = Inr name"
      and self': "self' = self\<lparr>ungraded := setdefault_append vn (name, cid) (ungraded self)\<rparr>"
      by (auto simp: add_child_def bind_r_Inr split: if_splits)
    from True child cat cm name have "child_problems (course_structure self) cid = {(name, cid)}"
      by (auto simp: child_problems_def is_problem_def has_display_name_def bind_r_Inr)
    with self' show ?thesis by (simp add: recorded_setdefault_append)
  qed
qed

lemma add_from_vert_recorded:
  assumes "add_from_vert vert self = Inr self'"
  shows "course_structure self' = course_structure self \<and>
         recorded (ungraded self') = recorded (ungraded self) \<union> vert_problems (course_structure self) vert"
proof -
  from assms obtain c ids where c: "py_getitem vert (JStr ''children'') = Inr c"
    and ids: "py_iter c = Inr ids" and loop: "for_each (add_child vert) ids self = Inr self'"
    by (auto simp: add_from_vert_def bind_r_Inr)
  have ci: "child_ids vert = ids" by (simp add: child_ids_def c ids)
  have "course_structure self' = course_structure self \<and>
        recorded (ungraded self') = recorded (ungraded self) \<union> (\<Union>cid\<in>set ids. child_problems (course_structure self) cid)"
    by (rule for_each_collect[OF loop, where P = "\<lambda>t. course_structure t = course_structure self"
          and f = "\<lambda>t. recorded (ungraded t)"])
       (use add_child_recorded in auto)
  then show ?thesis by (simp add: vert_problems_def ci)
qed

lemma visit_vert_recorded:
  assumes "visit_vert vid self = Inr self'"
  shows "course_structure self' = course_structure self \<and>
         recorded (ungraded self') = recorded (ungraded self) \<union> vid_problems (course_structure self) vid"
proof -
  from assms obtain vert where vert: "py_getitem (course_structure self) vid = Inr vert"
    and add: "add_from_vert vert self = Inr self'"
    by (auto simp: visit_vert_def bind_r_Inr)
  have "vid_problems (course_structure self) vid = vert_problems (course_structure self) vert"
    by (auto simp: vid_problems_def vert)
  with add_from_vert_recorded[OF add] show ?thesis by simp
qed

lemma visit_node_recorded:
  assumes "visit_node item self = Inr self'"
  shows "course_structure self' = course_structure self \<and>
         recorded (ungraded self') = recorded (ungraded self) \<union> node_problems (course_structure self) (snd item)"
proof (cases "top_level_ungraded (snd item)")
  case False
  have "self' = self"
  proof -
    from assms obtain cat where cat: "py_getitem (snd item) (JStr ''category'') = Inr cat"
      by (auto simp: visit_node_def Let_def bind_r_Inr)
    show ?thesis
    proof (cases "cat = JStr ''sequential''")
      case ncat: False
      with assms cat show ?thesis by (simp add: visit_node_def Let_def)
    next
      case True
      with assms cat obtain md g where md: "py_getitem (snd item) (JStr ''metadata'') = Inr md"
        and g: "py_in ''graded'' md = Inr g"
        by (auto simp: visit_node_def Let_def bind_r_Inr)
      with False True cat have "g" by (auto simp: top_level_ungraded_def)
      with assms cat True md g show ?thesis by (simp add: visit_node_def Let_def)
    qed
  qed
  with False show ?thesis by (simp add: node_problems_def)
next
  case True
  then have cat: "py_getitem (snd item) (JStr ''category'') = Inr (JStr ''sequential'')"
    and "\<exists>md. py_getitem (snd item) (JStr ''metadata'') = Inr md \<and> py_in ''graded'' md = Inr False"
    by (auto simp: top_level_ungraded_def bind_r_Inr)
  then obtain md where md: "py_getitem (snd item) (JStr ''metadata'') = Inr md"
    and g: "py_in ''graded'' md = Inr False" by blast
  from assms cat md g obtain c vids where c: "py_getitem (snd item) (JStr ''children'') = Inr c"
    and vids: "py_iter c = Inr vids" and loop: "for_each visit_vert vids self = Inr self'"
    by (auto simp: visit_node_def Let_def bind_r_Inr)
  have ci: "child_ids (snd item) = vids" by (simp add: child_ids_def c vids)
  have "course_structure self' = course_structure self \<and>
        recorded (ungraded self') = recorded (ungraded self) \<union> (\<Union>vid\<in>set vids. vid_problems (course_structure self) vid)"
    by (rule for_each_collect[OF loop, where P = "\<lambda>t. course_structure t = course_structure self"
          and f = "\<lambda>t. recorded (ungraded t)"])
       (use visit_vert_recorded in auto)
  with True ci show ?thesis by (simp add: node_problems_def)
qed

lemma extract_ungraded_recorded:
  assumes "extract_ungraded self = Inr self'"
  shows "\<exists>items. course_structure self = JObj items \<and> course_structure self' = course_structure self \<and>
         recorded (ungraded self') = (\<Union>item\<in>set items. node_problems (course_structure self) (snd item))"
proof -
  from assms obtain items where items: "course_structure self = JObj items"
    and loop: "for_each visit_node items (self\<lparr>ungraded := []\<rparr>) = Inr self'"
    by (auto simp: extract_ungraded_def split: json.splits)
  have "course_structure self' = course_structure self \<and>
        recorded (ungraded self') = recorded (ungraded (self\<lparr>ungraded := []\<rparr>)) \<union>
          (\<Union>item\<in>set items. node_problems (course_structure self) (snd item))"
    by (rule for_each_collect[OF loop, where P = "\<lambda>t. course_structure t = course_structure self"
          and f = "\<lambda>t. recorded (ungraded t)"])
       (use visit_node_recorded in auto)
  with items show ?thesis by (simp add: recorded_def)
qed

lemma in_child_problems:
  "(name, pid) \<in> child_problems cs cid \<longleftrightarrow>
     pid = cid \<and> (\<exists>child. py_getitem cs cid = Inr child \<and> is_problem child \<and> has_display_name child name)"
  unfolding child_problems_def by blast

lemma in_vert_problems:
  "(name, pid) \<in> vert_problems cs vert \<longleftrightarrow>
     pid \<in> set (child_ids vert) \<and>
     (\<exists>child. py_getitem cs pid = Inr child \<and> is_problem child \<and> has_display_name child name)"
  unfolding vert_problems_def by (simp add: in_child_problems)

lemma in_vid_problems:
  "(name, pid) \<in> vid_problems cs vid \<longleftrightarrow>
     (\<exists>vert. py_getitem cs vid = Inr vert \<and> (name, pid) \<in> vert_problems cs vert)"
  unfolding vid_problems_def by simp

lemma in_node_problems:
  "(name, pid) \<in> node_problems cs desc \<longleftrightarrow>
     top_level_ungraded desc \<and> (\<exists>vid\<in>set (child_ids desc). (name, pid) \<in> vid_problems cs vid)"
  unfolding node_problems_def by simp

text \<open>
  Claim C1.  When \<^verbatim>\<open>extract_ungraded\<close> returns, a pair (display name, id) is among
  the problems recorded in \<^verbatim>\<open>self.ungraded\<close> if and only if some item of the course
  structure is a top-level container that is visited (its category is
  \<^verbatim>\<open>'sequential'\<close> and \<^verbatim>\<open>'graded'\<close> is not in its metadata), the id is a child of one
  of that container's children, and the node of that id has the category
  \<^verbatim>\<open>'problem'\<close> and that display name.  So every recorded problem has an ungraded
  container above it, and a problem whose containers all have \<^verbatim>\<open>'graded'\<close> in their
  metadata is not recorded.
\<close>

theorem extract_ungraded_reachable:
  assumes "extract_ungraded self = Inr self'"
  shows "(name, pid) \<in> recorded (ungraded self') \<longleftrightarrow>
         (\<exists>id desc vid vert child.
            (id, desc) \<in> set (nodes (course_structure self)) \<and> top_level_ungraded desc \<and>
            vid \<in> set (child_ids desc) \<and> py_getitem (course_structure self) vid = Inr vert \<and>
            pid \<in> set (child_ids vert) \<and> py_getitem (course_structure self) pid = Inr child \<and>
            is_problem child \<and> has_display_name child name)"
proof -
  from extract_ungraded_recorded[OF assms] obtain items where
    items: "course_structure self = JObj items"
    and rec: "recorded (ungraded self') = (\<Union>item\<in>set items. node_problems (course_structure self) (snd item))"
    by blast
  have n: "nodes (course_structure self) = items" by (simp add: nodes_def items)
  have "(name, pid) \<in> recorded (ungraded self') \<longleftrightarrow>
        (\<exists>item\<in>set items. (name, pid) \<in> node_problems (course_structure self) (snd item))"
    unfolding rec by simp
  also have "\<dots> \<longleftrightarrow> (\<exists>id desc. (id, desc) \<in> set items \<and> (name, pid) \<in> node_problems (course_structure self) desc)"
    by force
  also have "\<dots> \<longleftrightarrow> (\<exists>id desc vid vert child.
            (id, desc) \<in> set items \<and> top_level_ungraded desc \<and>
            vid \<in> set (child_ids desc) \<and> py_getitem (course_structure self) vid = Inr vert \<and>
            pid \<in> set (child_ids vert) \<and> py_getitem (course_structure self) pid = Inr child \<and>
            is_problem child \<and> has_display_name child name)"
    unfolding in_node_problems in_vid_problems in_vert_problems by blast
  finally show ?thesis unfolding n .
qed

text \<open>The example course: \<open>p1\<close> lies under the ungraded \<open>s1\<close>, \<open>p2\<close> under the graded \<open>s2\<close>.\<close>

theorem extract_ungraded_reachable_witness:
  "extract_ungraded example_self =
     Inr (example_self\<lparr>ungraded := [(JStr ''Intro'', [(JStr ''Q1'', JStr ''p1'')])]\<rparr>) \<and>
   ((JStr ''Q1'', JStr ''p1'')
      \<in> recorded (ungraded (example_self\<lparr>ungraded := [(JStr ''Intro'', [(JStr ''Q1'', JStr ''p1'')])]\<rparr>)) \<longleftrightarrow>
    (\<exists>id desc vid vert child.
        (id, desc) \<in> set (nodes (course_structure example_self)) \<and> top_level_ungraded desc \<and>
        vid \<in> set (child_ids desc) \<and> py_getitem (course_structure example_self) vid = Inr vert \<and>
        JStr ''p1'' \<in> set (child_ids vert) \<and>
        py_getitem (course_structure example_self) (JStr ''p1'') = Inr child \<and>
        is_problem child \<and> has_display_name child (JStr ''Q1'')))"
proof -
  have h: "extract_ungraded example_self =
     Inr (example_self\<lparr>ungraded := [(JStr ''Intro'', [(JStr ''Q1'', JStr ''p1'')])]\<rparr>)"
    by (simp add: extract_ungraded_def example_self_def example_course_def example_node_def
        visit_node_def visit_vert_def add_from_vert_def add_child_def key_eq_def)
  from h extract_ungraded_reachable[OF h, of "JStr ''Q1''" "JStr ''p1''"] show ?thesis
    by (intro conjI) assumption+
qed


section \<open>Writing the records: what is written\<close>

lemma write_problem_result:
  assumes "student_df self < length (frames w)"
    and "write_problem env section p (self, w) = (r, st')"
  shows "fst st' = self \<and> (\<exists>new. frames (snd st') = frames w @ new) \<and>
         (case r of
            Some e \<Rightarrow> fs (snd st') = fs w
          | None \<Rightarrow> \<exists>out. problem_records env (frames w ! student_df self) (snd p) = Inr out \<and>
                     fs (snd st') = fs w @ [ToCsv (outfname env section (fst p)) out])"
proof (cases "frame_col (frames w ! student_df self) ''module_id''")
  case (Inl e)
  with assms(2) show ?thesis by (auto simp: write_problem_def Let_def)
next
  case (Inr ids)
  define raw where "raw = loc_mask (frames w ! student_df self) (series_eq ids (snd p))"
  show ?thesis
  proof (cases "bind_r (frame_col raw ''state'') (map_r (extract_student_answers env))")
    case (Inl e)
    with assms(2) Inr show ?thesis
      by (auto simp: write_problem_def Let_def raw_def)
  next
    case ans: (Inr answers)
    define out where "out = set_col raw ''student_answers''
                              (map (convert_objects env answers) answers)"
    have pr: "problem_records env (frames w ! student_df self) (snd p) = Inr out"
      using Inr ans by (auto simp: problem_records_def Let_def raw_def out_def bind_r_Inr)
    have step: "write_problem env section p (self, w) =
            os_call env (ToCsv (outfname env section (fst p)) out)
              (self, w\<lparr>frames := frames w @ [out]\<rparr>)"
      using Inr ans by (simp add: write_problem_def Let_def raw_def out_def)
    show ?thesis
      using assms(2) pr unfolding step os_call_def
      by (auto split: option.splits)
  qed
qed

lemma write_problems_result:
  assumes "student_df self < length (frames w)"
    and "for_each_io (write_problem env section) ps (self, w) = (r, st')"
  shows "fst st' = self \<and> (\<exists>new. frames (snd st') = frames w @ new) \<and>
         (\<exists>calls. fs (snd st') = fs w @ calls \<and>
            (r = None \<longrightarrow> map_r (problem_call env (frames w ! student_df self) section) ps = Inr calls))"
  using assms
proof (induction ps arbitrary: w)
  case Nil
  then show ?case by auto
next
  case (Cons p ps)
  obtain r1 st1 where step: "write_problem env section p (self, w) = (r1, st1)"
    by (cases "write_problem env section p (self, w)")
  from write_problem_result[OF Cons.prems(1) step]
  have self1: "fst st1 = self" and fr1: "\<exists>new. frames (snd st1) = frames w @ new"
    and fs1: "case r1 of Some e \<Rightarrow> fs (snd st1) = fs w
              | None \<Rightarrow> \<exists>out. problem_records env (frames w ! student_df self) (snd p) = Inr out \<and>
                     fs (snd st1) = fs w @ [ToCsv (outfname env section (fst p)) out]"
    by auto
  show ?case
  proof (cases r1)
    case (Some e)
    with Cons.prems(2) step have "r = Some e" "st' = st1" by auto
    with self1 fr1 fs1 Some show ?thesis by auto
  next
    case None
    from fs1 None obtain out where
      out: "problem_records env (frames w ! student_df self) (snd p) = Inr out"
      and fsout: "fs (snd st1) = fs w @ [ToCsv (outfname env section (fst p)) out]" by auto
    obtain w1 where st1: "st1 = (self, w1)" using self1 by (cases st1) auto
    from fr1 st1 obtain new1 where new1: "frames w1 = frames w @ new1" by auto
    have valid1: "student_df self < length (frames w1)" using Cons.prems(1) new1 by simp
    have same: "frames w1 ! student_df self = frames w ! student_df self"
      using Cons.prems(1) new1 by (simp add: nth_append)
    from Cons.prems(2) step None st1 have rest: "for_each_io (write_problem env section) ps (self, w1) = (r, st')"
      by simp
    from Cons.IH[OF valid1 rest] obtain new2 calls where
      a: "fst st' = self" and b: "frames (snd st') = frames w1 @ new2"
      and c: "fs (snd st') = fs w1 @ calls"
      and d: "r = None \<longrightarrow> map_r (problem_call env (frames w1 ! student_df self) section) ps = Inr calls"
      by auto
    have "fs (snd st') = fs w @ (ToCsv (outfname env section (fst p)) out # calls)"
      using c fsout st1 by simp
    moreover have "r = None \<longrightarrow> map_r (problem_call env (frames w ! student_df self) section) (p # ps)
          = Inr (ToCsv (outfname env section (fst p)) out # calls)"
      using d out same by (simp add: problem_call_def)
    moreover have "\<exists>new. frames (snd st') = frames w @ new" using b new1 by simp
    ultimately show ?thesis using a by blast
  qed
qed

lemma write_section_result:
  assumes "student_df self < length (frames w)"
    and "write_section env base_dir item (self, w) = (r, st')"
  shows "fst st' = self \<and> (\<exists>new. frames (snd st') = frames w @ new) \<and>
         (\<exists>calls. fs (snd st') = fs w @ calls \<and>
            (r = None \<longrightarrow> section_calls env base_dir (frames w ! student_df self) item = Inr calls))"
proof (cases "\<exists>s. fst item = JStr s")
  case False
  then have "write_section env base_dir item (self, w) = (Some TypeError, (self, w))"
    by (cases "fst item") (auto simp: write_section_def)
  with assms(2) show ?thesis by auto
next
  case True
  then obtain s where s: "fst item = JStr s" by blast
  show ?thesis
  proof (cases "os_error env (fs w) (MakeDirs (path_join base_dir s))")
    case (Some e)
    with assms(2) s show ?thesis by (auto simp: write_section_def os_call_def)
  next
    case None
    define w1 where "w1 = w\<lparr>fs := fs w @ [MakeDirs (path_join base_dir s)]\<rparr>"
    have loop: "for_each_io (write_problem env (fst item)) (snd item) (self, w1) = (r, st')"
      using assms(2) s None by (simp add: write_section_def os_call_def w1_def)
    have valid1: "student_df self < length (frames w1)" using assms(1) by (simp add: w1_def)
    from write_problems_result[OF valid1 loop] obtain new calls where
      a: "fst st' = self" and b: "frames (snd st') = frames w1 @ new"
      and c: "fs (snd st') = fs w1 @ calls"
      and d: "r = None \<longrightarrow> map_r (problem_call env (frames w1 ! student_df self) (fst item)) (snd item) = Inr calls"
      by auto
    have "fs (snd st') = fs w @ (MakeDirs (path_join base_dir s) # calls)"
      using c by (simp add: w1_def)
    moreover have "r = None \<longrightarrow> section_calls env base_dir (frames w ! student_df self) item
        = Inr (MakeDirs (path_join base_dir s) # calls)"
      using d s by (simp add: section_calls_def w1_def)
    moreover have "\<exists>new. frames (snd st') = frames w @ new" using b by (simp add: w1_def)
    ultimately show ?thesis using a by blast
  qed
qed

lemma write_sections_result:
  assumes "student_df self < length (frames w)"
    and "for_each_io (write_section env base_dir) u (self, w) = (r, st')"
  shows "fst st' = self \<and> (\<exists>new. frames (snd st') = frames w @ new) \<and>
         (\<exists>calls. fs (snd st') = fs w @ calls \<and>
            (r = None \<longrightarrow> expected_calls env base_dir (frames w ! student_df self) u = Inr calls))"
  using assms
proof (induction u arbitrary: w)
  case Nil
  then show ?case by (auto simp: expected_calls_def)
next
  case (Cons item u)
  obtain r1 st1 where step: "write_section env base_dir item (self, w) = (r1, st1)"
    by (cases "write_section env base_dir item (self, w)")
  from write_section_result[OF Cons.prems(1) step] obtain new1 calls1 where
    self1: "fst st1 = self" and fr1: "frames (snd st1) = frames w @ new1"
    and fs1: "fs (snd st1) = fs w @ calls1"
    and ok1: "r1 = None \<longrightarrow> section_calls env base_dir (frames w ! student_df self) item = Inr calls1"
    by auto
  show ?case
  proof (cases r1)
    case (Some e)
    with Cons.prems(2) step have "r = Some e" "st' = st1" by auto
    with self1 fr1 fs1 show ?thesis by auto
  next
    case None
    obtain w1 where st1: "st1 = (self, w1)" using self1 by (cases st1) auto
    have valid1: "student_df self < length (frames w1)" using Cons.prems(1) fr1 st1 by simp
    have same: "frames w1 ! student_df self = frames w ! student_df self"
      using Cons.prems(1) fr1 st1 by (simp add: nth_append)
    from Cons.prems(2) step None st1
    have rest: "for_each_io (write_section env base_dir) u (self, w1) = (r, st')" by simp
    from Cons.IH[OF valid1 rest] obtain new2 calls where
      a: "fst st' = self" and b: "frames (snd st') = frames w1 @ new2"
      and c: "fs (snd st') = fs w1 @ calls"
      and d: "r = None \<longrightarrow> expected_calls env base_dir (frames w1 ! student_df self) u = Inr calls"
      by auto
    have "fs (snd st') = fs w @ (calls1 @ calls)" using c fs1 st1 by simp
    moreover have "r = None \<longrightarrow> expected_calls env base_dir (frames w ! student_df self) (item # u)
        = Inr (calls1 @ calls)"
      using d ok1 None same by (auto simp: expected_calls_def bind_r_Inr)
    moreover have "\<exists>new. frames (snd st') = frames w @ new" using b fr1 st1 by simp
    ultimately show ?thesis using a by blast
  qed
qed

lemma write_records_result:
  assumes "student_df self < length (frames w)"
    and "write_records env base_dir (self, w) = (r, st')"
  shows "fst st' = self \<and> (\<exists>new. frames (snd st') = frames w @ new) \<and>
         (\<exists>calls. fs (snd st') = fs w @ calls \<and>
            (r = None \<longrightarrow>
               expected_calls env base_dir (frames w ! student_df self) (ungraded self) = Inr calls))"
  using write_sections_result[OF assms(1), of env base_dir "ungraded self" r st'] assms(2)
  by (simp add: write_records_def)

lemma map_r_Inr: "map_r f xs = Inr ys \<longleftrightarrow> list_all2 (\<lambda>x y. f x = Inr y) xs ys"
proof (induction xs arbitrary: ys)
  case Nil
  show ?case by auto
next
  case (Cons x xs)
  show ?case by (cases ys) (auto simp: bind_r_Inr Cons.IH)
qed

lemma filter_by_mask: "map snd (filter fst (zip (map P xs) xs)) = filter P xs"
  by (induction xs) auto

lemma filter_assoc_set: "filter (\<lambda>kv. fst kv \<noteq> k) (assoc_set k v r) = filter (\<lambda>kv. fst kv \<noteq> k) r"
  by (induction r) auto

lemma map_of_assoc_set_same: "map_of (assoc_set k v r) k = Some v"
  by (induction r) auto

lemma map_of_assoc_set_other: "k' \<noteq> k \<Longrightarrow> map_of (assoc_set k v r) k' = map_of r k'"
  by (induction r) auto

lemma rows_loc_mask_series_eq:
  assumes "frame_col df ''module_id'' = Inr ids"
  shows "rows (loc_mask df (series_eq ids pid)) = selected_rows df pid"
proof -
  from assms have ids: "ids = map (\<lambda>r. case map_of (snd r) ''module_id'' of None \<Rightarrow> NaN | Some v \<Rightarrow> v) (rows df)"
    by (auto simp: frame_col_def split: if_splits)
  have "series_eq ids pid = map (\<lambda>r. map_of (snd r) ''module_id'' = Some (Val pid)) (rows df)"
    unfolding series_eq_def ids by (auto split: option.splits)
  then show ?thesis by (simp add: loc_mask_def selected_rows_def filter_by_mask)
qed

text \<open>What the frame written for one problem is, row by row.\<close>

lemma problem_records_rows:
  assumes "problem_records env df pid = Inr out"
  shows "\<exists>answers.
           list_all2 (\<lambda>r a. extract_student_answers env (state_cell r) = Inr a)
             (selected_rows df pid) answers \<and>
           rows out = map (\<lambda>ra. (fst (fst ra),
                                  assoc_set ''student_answers'' (convert_objects env answers (snd ra))
                                    (snd (fst ra))))
                        (zip (selected_rows df pid) answers)"
proof -
  from assms obtain ids states answers where ids: "frame_col df ''module_id'' = Inr ids"
    and states: "frame_col (loc_mask df (series_eq ids pid)) ''state'' = Inr states"
    and answers: "map_r (extract_student_answers env) states = Inr answers"
    and out: "out = set_col (loc_mask df (series_eq ids pid)) ''student_answers''
                      (map (convert_objects env answers) answers)"
    by (auto simp: problem_records_def Let_def bind_r_Inr)
  have sel: "rows (loc_mask df (series_eq ids pid)) = selected_rows df pid"
    by (rule rows_loc_mask_series_eq[OF ids])
  from states sel have st: "states = map state_cell (selected_rows df pid)"
    by (auto simp: frame_col_def state_cell_def split: if_splits)
  from answers have "list_all2 (\<lambda>x y. extract_student_answers env x = Inr y) states answers"
    by (simp add: map_r_Inr)
  then have la: "list_all2 (\<lambda>r a. extract_student_answers env (state_cell r) = Inr a)
                   (selected_rows df pid) answers"
    by (simp add: st list_all2_map1)
  have "rows out = map (\<lambda>rv. (fst (fst rv), assoc_set ''student_answers'' (snd rv) (snd (fst rv))))
                     (zip (selected_rows df pid) (map (convert_objects env answers) answers))"
    by (simp add: out set_col_def sel)
  also have "\<dots> = map (\<lambda>ra. (fst (fst ra),
                                  assoc_set ''student_answers'' (convert_objects env answers (snd ra))
                                    (snd (fst ra))))
                        (zip (selected_rows df pid) answers)"
    by (simp add: zip_map2 case_prod_beta)
  finally show ?thesis using la by blast
qed

lemma problem_records_without_answers:
  assumes "problem_records env df pid = Inr out"
  shows "map without_answers (rows out) = map without_answers (selected_rows df pid)"
proof -
  from problem_records_rows[OF assms] obtain answers where
    la: "list_all2 (\<lambda>r a. extract_student_answers env (state_cell r) = Inr a)
           (selected_rows df pid) answers"
    and ro: "rows out = map (\<lambda>ra. (fst (fst ra),
                                  assoc_set ''student_answers'' (convert_objects env answers (snd ra))
                                    (snd (fst ra))))
                        (zip (selected_rows df pid) answers)"
    by blast
  have "map without_answers (map (\<lambda>ra. (fst (fst ra), assoc_set ''student_answers'' (c (snd ra))
                                    (snd (fst ra)))) (zip rs as)) = map without_answers rs"
    if "list_all2 P rs as" for c :: "json \<Rightarrow> cell" and P rs as
    using that by (induction rule: list_all2_induct) (auto simp: without_answers_def filter_assoc_set)
  from this[OF la] show ?thesis unfolding ro .
qed

lemma extract_student_answers_Inr:
  assumes "extract_student_answers env c = Inr a"
  shows "\<exists>s t kvs. c = Val (JStr s) \<and> unicode_escape env s = Inr t \<and> json_loads env t = Inr (JObj kvs) \<and>
        a = (case map_of kvs ''student_answers'' of None \<Rightarrow> JObj [] | Some v \<Rightarrow> v)"
proof -
  from assms obtain j where c: "c = Val j"
    by (cases c) (simp_all add: extract_student_answers_def)
  from assms c obtain s where j: "j = JStr s"
    by (cases j) (simp_all add: extract_student_answers_def)
  from assms obtain t data where t: "unicode_escape env s = Inr t" and d: "json_loads env t = Inr data"
    and r: "(case data of
                JObj kvs \<Rightarrow> Inr (case map_of kvs ''student_answers'' of None \<Rightarrow> JObj [] | Some v \<Rightarrow> v)
              | _ \<Rightarrow> Inl AttributeError) = Inr a"
    unfolding extract_student_answers_def c j by (simp add: bind_r_Inr) blast
  from r obtain kvs where k: "data = JObj kvs"
    and a: "a = (case map_of kvs ''student_answers'' of None \<Rightarrow> JObj [] | Some v \<Rightarrow> v)"
    by (cases data) simp_all
  from c j t d k a show ?thesis by blast
qed

text \<open>
  The results of \<^verbatim>\<open>extract_student_answers\<close> can be read back from the frame written,
  whose column \<^verbatim>\<open>state\<close> is the one of the rows selected.
\<close>

lemma file_answers_rows:
  assumes "list_all2 (\<lambda>r a. extract_student_answers env (state_cell r) = Inr a) rs as"
  shows "map (\<lambda>r. case extract_student_answers env (state_cell r) of Inr a \<Rightarrow> a | Inl e \<Rightarrow> JNull)
           (map (\<lambda>ra. (fst (fst ra), assoc_set ''student_answers'' (c (snd ra)) (snd (fst ra))))
              (zip rs as)) = as"
  using assms
  by (induction rule: list_all2_induct) (auto simp: state_cell_def map_of_assoc_set_other)

lemma problem_records_file_answers:
  assumes "problem_records env df pid = Inr out"
  shows "list_all2 (\<lambda>r a. extract_student_answers env (state_cell r) = Inr a)
           (selected_rows df pid) (file_answers env out) \<and>
         rows out = map (\<lambda>ra. (fst (fst ra),
                                assoc_set ''student_answers''
                                  (convert_objects env (file_answers env out) (snd ra))
                                  (snd (fst ra))))
                      (zip (selected_rows df pid) (file_answers env out))"
proof -
  from problem_records_rows[OF assms] obtain answers where
    la: "list_all2 (\<lambda>r a. extract_student_answers env (state_cell r) = Inr a)
           (selected_rows df pid) answers"
    and ro: "rows out = map (\<lambda>ra. (fst (fst ra),
                                  assoc_set ''student_answers'' (convert_objects env answers (snd ra))
                                    (snd (fst ra))))
                        (zip (selected_rows df pid) answers)"
    by blast
  have "file_answers env out = answers"
    unfolding file_answers_def ro by (rule file_answers_rows[OF la])
  with la ro show ?thesis by simp
qed

lemma problem_records_answers:
  assumes "problem_records env df pid = Inr out" and "row \<in> set (rows out)"
  shows "\<exists>s t kvs. map_of (snd row) ''state'' = Some (Val (JStr s)) \<and>
           unicode_escape env s = Inr t \<and> json_loads env t = Inr (JObj kvs) \<and>
           map_of (snd row) ''student_answers'' =
             Some (convert_objects env (file_answers env out)
                     (case map_of kvs ''student_answers'' of None \<Rightarrow> JObj [] | Some v \<Rightarrow> v))"
proof -
  from problem_records_file_answers[OF assms(1)] have
    la: "list_all2 (\<lambda>r a. extract_student_answers env (state_cell r) = Inr a)
           (selected_rows df pid) (file_answers env out)"
    and ro: "rows out = map (\<lambda>ra. (fst (fst ra),
                                assoc_set ''student_answers''
                                  (convert_objects env (file_answers env out) (snd ra))
                                  (snd (fst ra))))
                      (zip (selected_rows df pid) (file_answers env out))"
    by blast+
  from assms(2) obtain ra where ra: "ra \<in> set (zip (selected_rows df pid) (file_answers env out))"
    and row': "row = (fst (fst ra), assoc_set ''student_answers''
                              (convert_objects env (file_answers env out) (snd ra)) (snd (fst ra)))"
    unfolding ro by auto
  define r a where "r = fst ra" and "a = snd ra"
  from ra have "(r, a) \<in> set (zip (selected_rows df pid) (file_answers env out))"
    by (simp add: r_def a_def)
  with la have a: "extract_student_answers env (state_cell r) = Inr a"
    by (auto simp: list_all2_iff)
  from row' have row: "row = (fst r, assoc_set ''student_answers''
                              (convert_objects env (file_answers env out) a) (snd r))"
    by (simp add: r_def a_def)
  from a obtain s t kvs where c: "state_cell r = Val (JStr s)"
    and t: "unicode_escape env s = Inr t" and k: "json_loads env t = Inr (JObj kvs)"
    and av: "a = (case map_of kvs ''student_answers'' of None \<Rightarrow> JObj [] | Some v \<Rightarrow> v)"
    using extract_student_answers_Inr by blast
  from c have "map_of (snd r) ''state'' = Some (Val (JStr s))"
    by (auto simp: state_cell_def split: option.splits)
  then have "map_of (snd row) ''state'' = Some (Val (JStr s))"
    by (simp add: row map_of_assoc_set_other)
  moreover have "map_of (snd row) ''student_answers'' =
      Some (convert_objects env (file_answers env out) a)"
    by (simp add: row map_of_assoc_set_same)
  ultimately show ?thesis using t k av by blast
qed

lemma written_files_append: "written_files (a @ b) = written_files a @ written_files b"
  by (induction a rule: written_files.induct) auto

lemma made_dirs_append: "made_dirs (a @ b) = made_dirs a @ made_dirs b"
  by (induction a rule: made_dirs.induct) auto

lemma problem_calls_files:
  assumes "map_r (problem_call env df section) ps = Inr calls"
  shows "made_dirs calls = [] \<and>
         list_all2 (\<lambda>p f. fst f = outfname env section (fst p) \<and>
                          problem_records env df (snd p) = Inr (snd f))
           ps (written_files calls)"
proof -
  from assms have "list_all2 (\<lambda>p c. problem_call env df section p = Inr c) ps calls"
    by (simp add: map_r_Inr)
  then show ?thesis
  proof (induction rule: list_all2_induct)
    case Nil
    show ?case by simp
  next
    case (Cons p ps c calls)
    from Cons.hyps(1) obtain out where "problem_records env df (snd p) = Inr out"
      and "c = ToCsv (outfname env section (fst p)) out"
      by (auto simp: problem_call_def bind_r_Inr)
    with Cons.IH show ?case by simp
  qed
qed

lemma section_calls_files:
  assumes "section_calls env base_dir df item = Inr calls"
  shows "(\<exists>s. fst item = JStr s \<and> made_dirs calls = [path_join base_dir s]) \<and>
         list_all2 (\<lambda>p f. fst f = outfname env (fst item) (fst p) \<and>
                          problem_records env df (snd p) = Inr (snd f))
           (snd item) (written_files calls)"
proof -
  from assms obtain s where s: "fst item = JStr s"
    by (cases "fst item") (simp_all add: section_calls_def)
  from assms s obtain cs where cs: "map_r (problem_call env df (fst item)) (snd item) = Inr cs"
    and calls: "calls = MakeDirs (path_join base_dir s) # cs"
    by (auto simp: section_calls_def bind_r_Inr)
  from problem_calls_files[OF cs] s calls show ?thesis by simp
qed

lemma expected_calls_files:
  assumes "expected_calls env base_dir df u = Inr calls"
  shows "list_all2 (\<lambda>item dir. \<exists>s. fst item = JStr s \<and> dir = path_join base_dir s) u (made_dirs calls) \<and>
         list_all2 (\<lambda>q f. (\<exists>s. fst q = JStr s) \<and> fst f = outfname env (fst q) (fst (snd q)) \<and>
                          problem_records env df (snd (snd q)) = Inr (snd f))
           (all_problems u) (written_files calls)"
proof -
  from assms obtain css where css: "list_all2 (\<lambda>item cs. section_calls env base_dir df item = Inr cs) u css"
    and calls: "calls = concat css"
    by (auto simp: expected_calls_def bind_r_Inr map_r_Inr)
  from css show ?thesis unfolding calls
  proof (induction rule: list_all2_induct)
    case Nil
    show ?case by (simp add: all_problems_def)
  next
    case (Cons item u cs css)
    from section_calls_files[OF Cons.hyps(1)] obtain s where s: "fst item = JStr s"
      and d: "made_dirs cs = [path_join base_dir s]"
      and f: "list_all2 (\<lambda>p f. fst f = outfname env (fst item) (fst p) \<and>
                          problem_records env df (snd p) = Inr (snd f)) (snd item) (written_files cs)"
      by blast
    have f': "list_all2 (\<lambda>q f. (\<exists>s. fst q = JStr s) \<and> fst f = outfname env (fst q) (fst (snd q)) \<and>
                          problem_records env df (snd (snd q)) = Inr (snd f))
               (map (\<lambda>p. (fst item, fst p, snd p)) (snd item)) (written_files cs)"
      using f s by (simp add: list_all2_map1)
    have ap: "all_problems (item # u) = map (\<lambda>p. (fst item, fst p, snd p)) (snd item) @ all_problems u"
      by (simp add: all_problems_def)
    from Cons.IH d s f' show ?case
      unfolding ap by (simp add: made_dirs_append written_files_append list_all2_appendI)
  qed
qed

lemma write_records_calls:
  assumes "student_df self < length (frames w)"
    and "write_records env base_dir (self, w) = (None, st')"
  shows "expected_calls env base_dir (frames w ! student_df self) (ungraded self)
           = Inr (new_calls w (snd st'))"
  using write_records_result[OF assms] by (auto simp: new_calls_def)

lemma list_all2_filter_rel:
  assumes "list_all2 R xs ys" and "\<And>x y. R x y \<Longrightarrow> P x = Q y"
  shows "list_all2 R (filter P xs) (filter Q ys)"
  using assms(1)
proof (induction rule: list_all2_induct)
  case Nil
  show ?case by simp
next
  case (Cons x xs y ys)
  from assms(2)[OF Cons.hyps(1)] Cons.hyps(1) Cons.IH show ?case by simp
qed

lemma list_all2_last_rel:
  assumes "list_all2 R xs ys" and "xs \<noteq> []"
  shows "ys \<noteq> [] \<and> R (last xs) (last ys)"
  using assms
proof (induction rule: list_all2_induct)
  case Nil
  then show ?case by simp
next
  case (Cons x xs y ys)
  show ?case
  proof (cases "xs = []")
    case True
    with Cons.hyps show ?thesis by simp
  next
    case False
    with Cons.IH have "ys \<noteq> [] \<and> R (last xs) (last ys)" by simp
    with False show ?thesis by simp
  qed
qed

lemma file_content_last:
  assumes "list_all2 (\<lambda>q f. fst f = pathof q \<and> records q = Inr (snd f)) qs (written_files calls)"
    and "filter (\<lambda>q. pathof q = path) qs \<noteq> []"
  shows "\<exists>f. file_content calls path = Some f \<and>
             records (last (filter (\<lambda>q. pathof q = path) qs)) = Inr f"
proof -
  have rel: "list_all2 (\<lambda>q f. fst f = pathof q \<and> records q = Inr (snd f))
               (filter (\<lambda>q. pathof q = path) qs) (filter (\<lambda>f. fst f = path) (written_files calls))"
    by (rule list_all2_filter_rel[OF assms(1)]) auto
  from list_all2_last_rel[OF rel assms(2)]
  have ne: "filter (\<lambda>f. fst f = path) (written_files calls) \<noteq> []"
    and l: "records (last (filter (\<lambda>q. pathof q = path) qs)) =
            Inr (snd (last (filter (\<lambda>f. fst f = path) (written_files calls))))"
    by auto
  from ne have "file_content calls path = Some (snd (last (filter (\<lambda>f. fst f = path) (written_files calls))))"
    by (cases "filter (\<lambda>f. fst f = path) (written_files calls)") (simp_all add: file_content_def)
  with l show ?thesis by simp
qed

lemmas example_defs = example_env_def example_row_def example_df_def example_world_def
  example_extracted_def example_self_def

lemmas answers_defs = example_env_def example_answers_env_def example_loads_def example_state_def
  example_choice_def quoted_def example_state_row_def example_answers_df_def
  example_answers_world_def example_pair_extracted_def example_convert_def

lemmas posix_defs = example_posix_env_def example_posix_def start_dir_def enter_def
  example_convert_def

lemmas write_defs = write_records_def write_section_def write_problem_def os_call_def
  frame_col_def series_eq_def loc_mask_def set_col_def extract_student_answers_def
  outfname_def py_format_def path_join_def Let_def

lemma example_write_ok:
  "fst (write_records example_env ''ungraded_problems'' (example_extracted, example_world)) = None"
  by (simp add: example_defs write_defs)


section \<open>The files of the problems\<close>






section \<open>The answers written\<close>

text \<open>
  Claim C3, as stated, fails: the states of the two rows of the problem \<open>Q2\<close> parse
  to objects whose \<^verbatim>\<open>'student_answers'\<close> entries are 1 and \<^verbatim>\<open>None\<close>; pandas stores the
  results of \<^verbatim>\<open>apply\<close> as a column of floats, and the values written are 1.0 and NaN.
\<close>

theorem write_records_student_answers_counterexample:
  "fst (write_records example_answers_env ''ungraded_problems''
          (example_pair_extracted, example_answers_world)) = None \<and>
   extract_student_answers example_answers_env (Val (JStr (example_state ''1''))) = Inr (JInt 1) \<and>
   extract_student_answers example_answers_env (Val (JStr (example_state ''null''))) = Inr JNull \<and>
   map_option (\<lambda>f. map (\<lambda>row. (map_of (snd row) ''state'', map_of (snd row) ''student_answers'')) (rows f))
     (file_content (new_calls example_answers_world
        (snd (snd (write_records example_answers_env ''ungraded_problems''
                     (example_pair_extracted, example_answers_world)))))
        ''ungraded_problems/Intro/Q2.tsv'') =
     Some [(Some (Val (JStr (example_state ''1''))), Some (Val (JFloat 1))),
           (Some (Val (JStr (example_state ''null''))), Some NaN)]"
  by (simp add: answers_defs write_defs new_calls_def file_content_def)

text \<open>
  Claim C3, amended.  In every file that \<^verbatim>\<open>write_records\<close> has written, every row has a
  string \<open>s\<close> in its column \<^verbatim>\<open>state\<close>, decoding \<open>s\<close> with \<^verbatim>\<open>unicode_escape\<close> gives a
  text that parses as a JSON object, and the row's \<^verbatim>\<open>student_answers\<close> is what pandas'
  dtype inference over the results of the file's rows makes of the entry
  \<^verbatim>\<open>'student_answers'\<close> of that object, or of the empty dict when the object has no such
  key.  Pandas keeps results with a dict among them as they are: in a file one of
  whose results is a dict (the default is one), the \<^verbatim>\<open>student_answers\<close> of every row
  is that entry itself.
\<close>

theorem write_records_student_answers:
  assumes "student_df self < length (frames w)"
    and "write_records env base_dir (self, w) = (None, st')"
    and "keeps_dicts env"
  shows "\<forall>f\<in>set (written_files (new_calls w (snd st'))). \<forall>row\<in>set (rows (snd f)).
           \<exists>s t kvs. map_of (snd row) ''state'' = Some (Val (JStr s)) \<and>
             unicode_escape env s = Inr t \<and> json_loads env t = Inr (JObj kvs) \<and>
             map_of (snd row) ''student_answers'' =
               Some (convert_objects env (file_answers env (snd f))
                       (case map_of kvs ''student_answers'' of None \<Rightarrow> JObj [] | Some v \<Rightarrow> v)) \<and>
             ((\<exists>d. JObj d \<in> set (file_answers env (snd f))) \<longrightarrow>
                map_of (snd row) ''student_answers'' =
                  Some (Val (case map_of kvs ''student_answers'' of None \<Rightarrow> JObj [] | Some v \<Rightarrow> v)))"
proof (intro ballI)
  fix f row
  assume f: "f \<in> set (written_files (new_calls w (snd st')))" and row: "row \<in> set (rows (snd f))"
  have "list_all2 (\<lambda>q f. (\<exists>s. fst q = JStr s) \<and> fst f = outfname env (fst q) (fst (snd q)) \<and>
                          problem_records env (frames w ! student_df self) (snd (snd q)) = Inr (snd f))
           (all_problems (ungraded self)) (written_files (new_calls w (snd st')))"
    using expected_calls_files[OF write_records_calls[OF assms(1,2)]] by blast
  with f obtain q where "problem_records env (frames w ! student_df self) (snd (snd q)) = Inr (snd f)"
    by (auto simp: list_all2_conv_all_nth in_set_conv_nth)
  from problem_records_answers[OF this row] obtain s t kvs where
    a: "map_of (snd row) ''state'' = Some (Val (JStr s))"
    and b: "unicode_escape env s = Inr t" and c: "json_loads env t = Inr (JObj kvs)"
    and d: "map_of (snd row) ''student_answers'' =
               Some (convert_objects env (file_answers env (snd f))
                       (case map_of kvs ''student_answers'' of None \<Rightarrow> JObj [] | Some v \<Rightarrow> v))"
    by blast
  have e: "map_of (snd row) ''student_answers'' =
             Some (Val (case map_of kvs ''student_answers'' of None \<Rightarrow> JObj [] | Some v \<Rightarrow> v))"
    if "\<exists>d. JObj d \<in> set (file_answers env (snd f))"
    using that assms(3) d unfolding keeps_dicts_def by simp
  from a b c d e
  show "\<exists>s t kvs. map_of (snd row) ''state'' = Some (Val (JStr s)) \<and>
             unicode_escape env s = Inr t \<and> json_loads env t = Inr (JObj kvs) \<and>
             map_of (snd row) ''student_answers'' =
               Some (convert_objects env (file_answers env (snd f))
                       (case map_of kvs ''student_answers'' of None \<Rightarrow> JObj [] | Some v \<Rightarrow> v)) \<and>
             ((\<exists>d. JObj d \<in> set (file_answers env (snd f))) \<longrightarrow>
                map_of (snd row) ''student_answers'' =
                  Some (Val (case map_of kvs ''student_answers'' of None \<Rightarrow> JObj [] | Some v \<Rightarrow> v)))"
    by blast
qed

text \<open>
  The file of the problem \<open>Q1\<close> of the example: the state of its first row holds the
  dict of answers \<^verbatim>\<open>{"q": "a"}\<close>, which is written.
\<close>

theorem write_records_student_answers_witness:
  "student_df example_pair_extracted < length (frames example_answers_world) \<and>
   write_records example_answers_env ''ungraded_problems'' (example_pair_extracted, example_answers_world) =
     (None, snd (write_records example_answers_env ''ungraded_problems''
                   (example_pair_extracted, example_answers_world))) \<and>
   keeps_dicts example_answers_env \<and>
   (''ungraded_problems/Intro/Q1.tsv'', example_answers_out)
     \<in> set (written_files (new_calls example_answers_world
        (snd (snd (write_records example_answers_env ''ungraded_problems''
                     (example_pair_extracted, example_answers_world)))))) \<and>
   (0, example_state_row ''p1'' (example_state example_choice) @
         [(''student_answers'', Val (JObj [(''q'', JStr ''a'')]))]) \<in> set (rows example_answers_out) \<and>
   JObj [(''q'', JStr ''a'')] \<in> set (file_answers example_answers_env example_answers_out) \<and>
   (\<exists>s t kvs.
      unicode_escape example_answers_env s = Inr t \<and>
      json_loads example_answers_env t = Inr (JObj kvs) \<and>
      map_of kvs ''student_answers'' = Some (JObj [(''q'', JStr ''a'')]) \<and>
      map_of (example_state_row ''p1'' (example_state example_choice) @
                [(''student_answers'', Val (JObj [(''q'', JStr ''a'')]))]) ''state'' =
        Some (Val (JStr s)) \<and>
      map_of (example_state_row ''p1'' (example_state example_choice) @
                [(''student_answers'', Val (JObj [(''q'', JStr ''a'')]))]) ''student_answers'' =
        Some (Val (case map_of kvs ''student_answers'' of None \<Rightarrow> JObj [] | Some v \<Rightarrow> v)))"
proof -
  let ?run = "write_records example_answers_env ''ungraded_problems''
                (example_pair_extracted, example_answers_world)"
  let ?row = "example_state_row ''p1'' (example_state example_choice) @
                [(''student_answers'', Val (JObj [(''q'', JStr ''a'')]))]"
  have h1: "student_df example_pair_extracted < length (frames example_answers_world)"
    by (simp add: answers_defs)
  have "fst ?run = None"
    by (simp add: answers_defs write_defs)
  then have h2: "?run = (None, snd ?run)"
    by (metis prod.collapse)
  have h3: "keeps_dicts example_answers_env"
    by (auto simp: keeps_dicts_def example_answers_env_def example_env_def example_convert_def)
  have "written_files (new_calls example_answers_world (snd (snd ?run))) ! 0 =
          (''ungraded_problems/Intro/Q1.tsv'', example_answers_out)"
    and "0 < length (written_files (new_calls example_answers_world (snd (snd ?run))))"
    by (simp_all add: answers_defs example_answers_out_def write_defs new_calls_def)
  then have h4: "(''ungraded_problems/Intro/Q1.tsv'', example_answers_out)
     \<in> set (written_files (new_calls example_answers_world (snd (snd ?run))))"
    by (metis nth_mem)
  have h5: "(0, ?row) \<in> set (rows example_answers_out)"
    by (simp add: example_answers_out_def)
  have h6: "JObj [(''q'', JStr ''a'')] \<in> set (file_answers example_answers_env example_answers_out)"
    by (simp add: file_answers_def state_cell_def example_answers_out_def answers_defs
          extract_student_answers_def)
  note res = write_records_student_answers[OF h1 h2 h3]
  have "\<exists>s t kvs. map_of ?row ''state'' = Some (Val (JStr s)) \<and>
      unicode_escape example_answers_env s = Inr t \<and>
      json_loads example_answers_env t = Inr (JObj kvs) \<and>
      map_of ?row ''student_answers'' =
        Some (convert_objects example_answers_env
                (file_answers example_answers_env example_answers_out)
                (case map_of kvs ''student_answers'' of None \<Rightarrow> JObj [] | Some v \<Rightarrow> v)) \<and>
      ((\<exists>d. JObj d \<in> set (file_answers example_answers_env example_answers_out)) \<longrightarrow>
         map_of ?row ''student_answers'' =
           Some (Val (case map_of kvs ''student_answers'' of None \<Rightarrow> JObj [] | Some v \<Rightarrow> v)))"
    using bspec[OF bspec[OF res h4, unfolded snd_conv] h5] unfolding snd_conv .
  then obtain s t kvs where a: "map_of ?row ''state'' = Some (Val (JStr s))"
    and b: "unicode_escape example_answers_env s = Inr t"
    and c: "json_loads example_answers_env t = Inr (JObj kvs)"
    and imp: "(\<exists>d. JObj d \<in> set (file_answers example_answers_env example_answers_out)) \<longrightarrow>
         map_of ?row ''student_answers'' =
           Some (Val (case map_of kvs ''student_answers'' of None \<Rightarrow> JObj [] | Some v \<Rightarrow> v))"
    by blast
  from imp h6 have d: "map_of ?row ''student_answers'' =
           Some (Val (case map_of kvs ''student_answers'' of None \<Rightarrow> JObj [] | Some v \<Rightarrow> v))"
    by blast
  from a have s: "s = example_state example_choice"
    by (simp add: example_state_row_def)
  from b have t: "t = example_state example_choice"
    by (simp add: s example_answers_env_def example_env_def)
  from c have k: "map_of kvs ''student_answers'' = Some (JObj [(''q'', JStr ''a'')])"
    by (auto simp: t example_answers_env_def example_env_def example_loads_def example_state_def
          example_choice_def quoted_def split: if_splits)
  from a b c d k have "\<exists>s t kvs.
      unicode_escape example_answers_env s = Inr t \<and>
      json_loads example_answers_env t = Inr (JObj kvs) \<and>
      map_of kvs ''student_answers'' = Some (JObj [(''q'', JStr ''a'')]) \<and>
      map_of ?row ''state'' = Some (Val (JStr s)) \<and>
      map_of ?row ''student_answers'' =
        Some (Val (case map_of kvs ''student_answers'' of None \<Rightarrow> JObj [] | Some v \<Rightarrow> v))"
    by blast
  with h1 h2 h3 h4 h5 h6 show ?thesis by (intro conjI)
qed


text \<open>
  Claim C9.  However \<^verbatim>\<open>write_records\<close> ends, the object is as it was, so
  \<^verbatim>\<open>self.ungraded\<close> is the same mapping, and the frame that \<^verbatim>\<open>self.student_df\<close> refers to
  is the frame it was, with the columns and the values it had: the column
  \<^verbatim>\<open>student_answers\<close> is assigned only in the frames that \<^verbatim>\<open>.loc\<close> has created.
\<close>

theorem write_records_frame:
  assumes "student_df self < length (frames w)"
    and "write_records env base_dir (self, w) = (r, st')"
  shows "fst st' = self \<and> ungraded (fst st') = ungraded self \<and>
         student_df (fst st') = student_df self \<and>
         frames (snd st') ! student_df (fst st') = frames w ! student_df self \<and>
         columns (frames (snd st') ! student_df (fst st')) = columns (frames w ! student_df self) \<and>
         rows (frames (snd st') ! student_df (fst st')) = rows (frames w ! student_df self)"
proof -
  from write_records_result[OF assms] obtain new where
    a: "fst st' = self" and b: "frames (snd st') = frames w @ new" by blast
  from b assms(1) have "frames (snd st') ! student_df self = frames w ! student_df self"
    by (simp add: nth_append)
  with a show ?thesis by simp
qed

theorem write_records_frame_witness:
  "student_df example_extracted < length (frames example_world) \<and>
   write_records example_env ''ungraded_problems'' (example_extracted, example_world) =
     (None, snd (write_records example_env ''ungraded_problems'' (example_extracted, example_world))) \<and>
   length (frames (snd (snd (write_records example_env ''ungraded_problems''
                                (example_extracted, example_world))))) = 2 \<and>
   columns (frames (snd (snd (write_records example_env ''ungraded_problems''
                                (example_extracted, example_world)))) ! 0) =
     [''module_id'', ''student_id'', ''state'', ''created'', ''modified'', ''done'']"
proof -
  have h1: "student_df example_extracted < length (frames example_world)"
    by (simp add: example_defs)
  have "fst (write_records example_env ''ungraded_problems'' (example_extracted, example_world)) = None"
    by (simp add: example_defs write_defs)
  then have h2: "write_records example_env ''ungraded_problems'' (example_extracted, example_world) =
     (None, snd (write_records example_env ''ungraded_problems'' (example_extracted, example_world)))"
    by (metis prod.collapse)
  have h3: "length (frames (snd (snd (write_records example_env ''ungraded_problems''
                                (example_extracted, example_world))))) = 2"
    by (simp add: example_defs write_defs)
  have s0: "student_df example_extracted = 0" by (simp add: example_defs)
  have c0: "columns (frames example_world ! 0) =
     [''module_id'', ''student_id'', ''state'', ''created'', ''modified'', ''done'']"
    by (simp add: example_defs)
  from write_records_frame[OF h1 h2] have
    "student_df (fst (snd (write_records example_env ''ungraded_problems''
                                (example_extracted, example_world)))) = student_df example_extracted"
    and "columns (frames (snd (snd (write_records example_env ''ungraded_problems''
                                (example_extracted, example_world)))) !
           student_df (fst (snd (write_records example_env ''ungraded_problems''
                                (example_extracted, example_world))))) =
     columns (frames example_world ! student_df example_extracted)"
    by blast+
  then have "columns (frames (snd (snd (write_records example_env ''ungraded_problems''
                                (example_extracted, example_world)))) ! 0) =
     columns (frames example_world ! 0)"
    using s0 by metis
  with h1 h2 h3 c0 show ?thesis by metis
qed


section \<open>Where the files go\<close>






lemma resolve_empty: "resolve cwd [] = cwd"
  by (simp add: resolve_def start_dir_def enter_def)








text \<open>
  The example written with \<^verbatim>\<open>base_dir = 'out'\<close>.  In an empty working directory
  \<^verbatim>\<open>out/Intro\<close> is created, \<^verbatim>\<open>to_csv\<close> fails for want of \<^verbatim>\<open>ungraded_problems/Intro\<close> and
  no file is written.  In a working directory that has \<^verbatim>\<open>ungraded_problems/Intro\<close> the
  file is written there, not in \<^verbatim>\<open>out/Intro\<close>.
\<close>

lemma write_records_elsewhere:
  "write_records (example_posix_env example_fresh) ''out'' (example_extracted, example_world) =
     (Some OSError,
      (example_extracted,
       \<lparr>frames = [example_df, example_out], fs = [MakeDirs ''out/Intro'']\<rparr>))"
  "fst (write_records (example_posix_env example_prepared) ''out'' (example_extracted, example_world))
     = None"
  "fs (snd (snd (write_records (example_posix_env example_prepared) ''out''
                   (example_extracted, example_world)))) =
     [MakeDirs ''out/Intro'', ToCsv ''ungraded_problems/Intro/Q1.tsv'' example_out]"
  "resolve [''work''] ''out/Intro'' \<noteq> file_dir [''work''] ''ungraded_problems/Intro/Q1.tsv''"
  by (simp_all add: posix_defs example_fresh_def example_prepared_def example_defs example_out_def
        write_defs resolve_def file_dir_def)


section \<open>Display names that collide\<close>

lemma key_eq_trans: "key_eq a b \<Longrightarrow> key_eq b c \<Longrightarrow> key_eq a c"
  and key_eq_sym: "key_eq a b \<Longrightarrow> key_eq b a"
  by (simp_all add: key_eq_def)

lemma dict_get_setdefault_append:
  "dict_get (setdefault_append k v d) n = dict_get d n @ (if key_eq k n then [v] else [])"
proof (induction d)
  case Nil
  show ?case by (simp add: dict_get_def)
next
  case (Cons kv d)
  obtain k' vs where kv: "kv = (k', vs)" by (cases kv)
  show ?case
  proof (cases "key_eq k' k")
    case True
    show ?thesis
    proof (cases "key_eq k' n")
      case kn: True
      with True have "key_eq k n" by (metis key_eq_trans key_eq_sym)
      with True kn show ?thesis by (simp add: kv dict_get_def)
    next
      case kn: False
      with True have "\<not> key_eq k n" by (metis key_eq_trans)
      with True kn show ?thesis by (simp add: kv dict_get_def)
    qed
  next
    case False
    show ?thesis
    proof (cases "key_eq k' n")
      case kn: True
      with False have "\<not> key_eq k n" by (metis key_eq_trans key_eq_sym)
      with False kn show ?thesis by (simp add: kv dict_get_def)
    next
      case kn: False
      have "dict_get ((k', vs) # setdefault_append k v d) n = dict_get (setdefault_append k v d) n"
        using kn by (simp add: dict_get_def)
      moreover have "dict_get ((k', vs) # d) n = dict_get d n"
        using kn by (simp add: dict_get_def)
      ultimately show ?thesis using False Cons.IH by (simp add: kv)
    qed
  qed
qed

lemma keys_setdefault_append:
  "distinct (map (\<lambda>kv. key_norm (fst kv)) d) \<Longrightarrow>
   distinct (map (\<lambda>kv. key_norm (fst kv)) (setdefault_append k v d)) \<and>
   set (map (\<lambda>kv. key_norm (fst kv)) (setdefault_append k v d)) =
     insert (key_norm k) (set (map (\<lambda>kv. key_norm (fst kv)) d))"
proof (induction d)
  case Nil
  show ?case by simp
next
  case (Cons kv d)
  obtain k' vs where kv: "kv = (k', vs)" by (cases kv)
  show ?case
  proof (cases "key_eq k' k")
    case True
    with Cons.prems show ?thesis by (auto simp: kv key_eq_def)
  next
    case False
    from Cons.prems have "distinct (map (\<lambda>kv. key_norm (fst kv)) d)" by simp
    from Cons.IH[OF this] Cons.prems False show ?thesis
      by (auto simp: kv key_eq_def)
  qed
qed

lemma for_each_accum:
  assumes "for_each body xs s = Inr s'" and "P s"
    and "\<And>x t t'. x \<in> set xs \<Longrightarrow> P t \<Longrightarrow> body x t = Inr t' \<Longrightarrow> P t' \<and> f t' = f t @ g x"
  shows "P s' \<and> f s' = f s @ concat (map g xs)"
  using assms
proof (induction xs arbitrary: s)
  case Nil
  then show ?case by simp
next
  case (Cons x xs)
  from Cons.prems(1) obtain t where t: "body x s = Inr t" and rest: "for_each body xs t = Inr s'"
    by (auto simp: bind_r_Inr)
  from Cons.prems(3)[OF _ Cons.prems(2) t] have Pt: "P t" and ft: "f t = f s @ g x" by auto
  have "P s' \<and> f s' = f t @ concat (map g xs)"
    by (rule Cons.IH[OF rest Pt]) (use Cons.prems(3) in auto)
  with ft show ?case by auto
qed

lemma add_child_dict:
  assumes "add_child vert cid self = Inr self'" and "has_display_name vert vn"
  shows "course_structure self' = course_structure self \<and>
         (distinct (map (\<lambda>kv. key_norm (fst kv)) (ungraded self)) \<longrightarrow>
          distinct (map (\<lambda>kv. key_norm (fst kv)) (ungraded self'))) \<and>
         dict_get (ungraded self') n =
           dict_get (ungraded self) n @
           (if key_eq vn n then child_problem (course_structure self) cid else [])"
proof -
  from assms(1) obtain child cat where child: "py_getitem (course_structure self) cid = Inr child"
    and cat: "py_getitem child (JStr ''category'') = Inr cat"
    by (auto simp: add_child_def bind_r_Inr)
  show ?thesis
  proof (cases "cat = JStr ''problem''")
    case False
    with assms(1) child cat have "self' = self" by (simp add: add_child_def)
    moreover from False child cat have "child_problem (course_structure self) cid = []"
      by (simp add: child_problem_def is_problem_def)
    ultimately show ?thesis by simp
  next
    case True
    from assms(2) obtain vm where vm: "py_getitem vert (JStr ''metadata'') = Inr vm"
      and vn: "py_getitem vm (JStr ''display_name'') = Inr vn"
      by (auto simp: has_display_name_def bind_r_Inr)
    from True assms(1) child cat vm vn obtain cm name where
      cm: "py_getitem child (JStr ''metadata'') = Inr cm"
      and name: "py_getitem cm (JStr ''display_name'') = Inr name"
      and self': "self' = self\<lparr>ungraded := setdefault_append vn (name, cid) (ungraded self)\<rparr>"
      by (auto simp: add_child_def bind_r_Inr split: if_splits)
    from True child cat cm name have "child_problem (course_structure self) cid = [(name, cid)]"
      by (simp add: child_problem_def is_problem_def)
    with self' show ?thesis
      by (simp add: dict_get_setdefault_append keys_setdefault_append)
  qed
qed

lemma add_from_vert_dict:
  assumes "add_from_vert vert self = Inr self'" and "has_display_name vert vn"
  shows "course_structure self' = course_structure self \<and>
         (distinct (map (\<lambda>kv. key_norm (fst kv)) (ungraded self)) \<longrightarrow>
          distinct (map (\<lambda>kv. key_norm (fst kv)) (ungraded self'))) \<and>
         dict_get (ungraded self') n =
           dict_get (ungraded self) n @
           (if key_eq vn n then problems_of (course_structure self) vert else [])"
proof -
  from assms(1) obtain c ids where c: "py_getitem vert (JStr ''children'') = Inr c"
    and ids: "py_iter c = Inr ids" and loop: "for_each (add_child vert) ids self = Inr self'"
    by (auto simp: add_from_vert_def bind_r_Inr)
  have ci: "child_ids vert = ids" by (simp add: child_ids_def c ids)
  let ?P = "\<lambda>t. course_structure t = course_structure self \<and>
     (distinct (map (\<lambda>kv. key_norm (fst kv)) (ungraded self)) \<longrightarrow>
      distinct (map (\<lambda>kv. key_norm (fst kv)) (ungraded t)))"
  let ?g = "\<lambda>cid. if key_eq vn n then child_problem (course_structure self) cid else []"
  have "?P self' \<and> dict_get (ungraded self') n = dict_get (ungraded self) n @ concat (map ?g ids)"
  proof (rule for_each_accum[OF loop, where P = ?P and f = "\<lambda>t. dict_get (ungraded t) n"])
    show "?P self" by simp
  next
    fix x t t'
    assume "x \<in> set ids" and Pt: "?P t" and step: "add_child vert x t = Inr t'"
    from add_child_dict[OF step assms(2), of n] Pt
    show "?P t' \<and> dict_get (ungraded t') n = dict_get (ungraded t) n @ ?g x"
      by auto
  qed
  moreover have "concat (map ?g ids) = (if key_eq vn n then problems_of (course_structure self) vert else [])"
    by (simp add: problems_of_def ci)
  ultimately show ?thesis by simp
qed

text \<open>
  Claim C10.  First part: when \<^verbatim>\<open>add_from_vert\<close> has run for two verticals with the same
  display name \<open>n\<close>, the list under the key \<open>n\<close> is the list it was, followed by the
  problems of the first vertical and then those of the second, and the keys of
  \<^verbatim>\<open>self.ungraded\<close> are still distinct: one key, one list.  Second part: when two
  problems of one section have the same display name, both are written to the same path
  \<^verbatim>\<open>ungraded_problems/{section}/{name}.tsv\<close>, and if no later problem is written to that
  path, the file holds in the end the records of the later problem only.
\<close>

theorem display_name_collisions:
  assumes "add_from_vert v1 self = Inr self1" and "add_from_vert v2 self1 = Inr self2"
    and "has_display_name v1 n" and "has_display_name v2 n"
    and "distinct (map (\<lambda>kv. key_norm (fst kv)) (ungraded self))"
    and "student_df obj < length (frames w)"
    and "write_records env base_dir (obj, w) = (None, st')"
    and "all_problems (ungraded obj) = pre @ (section, name, pid1) # mid @ (section, name, pid2) # post"
    and "filter (\<lambda>q. outfname env (fst q) (fst (snd q)) = outfname env section name) post = []"
  shows "dict_get (ungraded self2) n =
           dict_get (ungraded self) n @ problems_of (course_structure self) v1 @
           problems_of (course_structure self) v2 \<and>
         distinct (map (\<lambda>kv. key_norm (fst kv)) (ungraded self2)) \<and>
         (\<exists>f. file_content (new_calls w (snd st')) (outfname env section name) = Some f \<and>
              problem_records env (frames w ! student_df obj) pid2 = Inr f \<and>
              map without_answers (rows f) =
              map without_answers (selected_rows (frames w ! student_df obj) pid2))"
proof -
  note a1 = add_from_vert_dict[OF assms(1) assms(3), of n]
  note a2 = add_from_vert_dict[OF assms(2) assms(4), of n]
  have kn: "key_eq n n" by (simp add: key_eq_def)
  from a1 a2 kn assms(5) have part1:
    "dict_get (ungraded self2) n =
       dict_get (ungraded self) n @ problems_of (course_structure self) v1 @
       problems_of (course_structure self) v2"
    "distinct (map (\<lambda>kv. key_norm (fst kv)) (ungraded self2))"
    by auto
  let ?df = "frames w ! student_df obj"
  let ?path = "outfname env section name"
  let ?P = "\<lambda>q. outfname env (fst q) (fst (snd q)) = ?path"
  have rel: "list_all2 (\<lambda>q f. fst f = outfname env (fst q) (fst (snd q)) \<and>
                          problem_records env ?df (snd (snd q)) = Inr (snd f))
           (all_problems (ungraded obj)) (written_files (new_calls w (snd st')))"
    by (rule list_all2_mono[OF conjunct2[OF expected_calls_files[OF write_records_calls[OF assms(6,7)]]]])
       blast
  have flt: "filter ?P (all_problems (ungraded obj)) =
             filter ?P pre @ (section, name, pid1) # filter ?P mid @ [(section, name, pid2)]"
    using assms(9) by (simp add: assms(8))
  then have ne: "filter ?P (all_problems (ungraded obj)) \<noteq> []"
    and lst: "last (filter ?P (all_problems (ungraded obj))) = (section, name, pid2)"
    by simp_all
  from file_content_last[OF rel ne] lst obtain f where
    f: "file_content (new_calls w (snd st')) ?path = Some f"
    and r: "problem_records env ?df pid2 = Inr f"
    by auto
  from problem_records_without_answers[OF r] f r part1 show ?thesis by blast
qed

text \<open>Two verticals named \<open>Intro\<close>, each with one problem named \<open>Q1\<close>.\<close>

theorem display_name_collisions_witness:
  "add_from_vert example_v1 (example_twins_self []) =
     Inr (example_twins_self [(JStr ''Intro'', [(JStr ''Q1'', JStr ''p1'')])]) \<and>
   add_from_vert example_v2 (example_twins_self [(JStr ''Intro'', [(JStr ''Q1'', JStr ''p1'')])]) =
     Inr example_twins_extracted \<and>
   has_display_name example_v1 (JStr ''Intro'') \<and> has_display_name example_v2 (JStr ''Intro'') \<and>
   write_records example_env ''ungraded_problems'' (example_twins_extracted, example_world) =
     (None, snd (write_records example_env ''ungraded_problems'' (example_twins_extracted, example_world))) \<and>
   all_problems (ungraded example_twins_extracted) =
     [] @ (JStr ''Intro'', JStr ''Q1'', JStr ''p1'') # [] @ (JStr ''Intro'', JStr ''Q1'', JStr ''p2'') # [] \<and>
   dict_get (ungraded example_twins_extracted) (JStr ''Intro'') =
     dict_get (ungraded (example_twins_self [])) (JStr ''Intro'') @
     problems_of (course_structure (example_twins_self [])) example_v1 @
     problems_of (course_structure (example_twins_self [])) example_v2 \<and>
   distinct (map (\<lambda>kv. key_norm (fst kv)) (ungraded example_twins_extracted)) \<and>
   (\<exists>f. file_content
          (new_calls example_world
             (snd (snd (write_records example_env ''ungraded_problems''
                          (example_twins_extracted, example_world)))))
          (outfname example_env (JStr ''Intro'') (JStr ''Q1'')) = Some f \<and>
        problem_records example_env (frames example_world ! student_df example_twins_extracted)
          (JStr ''p2'') = Inr f \<and>
        map without_answers (rows f) =
        map without_answers
          (selected_rows (frames example_world ! student_df example_twins_extracted) (JStr ''p2'')))"
proof -
  note defs = example_twins_def example_twins_self_def example_twins_extracted_def example_v1_def
    example_v2_def example_node_def
  have h1: "add_from_vert example_v1 (example_twins_self []) =
     Inr (example_twins_self [(JStr ''Intro'', [(JStr ''Q1'', JStr ''p1'')])])"
    by (simp add: defs add_from_vert_def add_child_def)
  have h2: "add_from_vert example_v2 (example_twins_self [(JStr ''Intro'', [(JStr ''Q1'', JStr ''p1'')])]) =
     Inr example_twins_extracted"
    by (simp add: defs add_from_vert_def add_child_def key_eq_def)
  have h3: "has_display_name example_v1 (JStr ''Intro'')"
    by (simp add: defs has_display_name_def)
  have h4: "has_display_name example_v2 (JStr ''Intro'')"
    by (simp add: defs has_display_name_def)
  have h5: "distinct (map (\<lambda>kv. key_norm (fst kv)) (ungraded (example_twins_self [])))"
    by (simp add: defs)
  have h6: "student_df example_twins_extracted < length (frames example_world)"
    by (simp add: defs example_defs)
  have "fst (write_records example_env ''ungraded_problems'' (example_twins_extracted, example_world)) = None"
    by (simp add: defs example_defs write_defs)
  then have h7: "write_records example_env ''ungraded_problems'' (example_twins_extracted, example_world) =
     (None, snd (write_records example_env ''ungraded_problems'' (example_twins_extracted, example_world)))"
    by (metis prod.collapse)
  have h8: "all_problems (ungraded example_twins_extracted) =
     [] @ (JStr ''Intro'', JStr ''Q1'', JStr ''p1'') # [] @ (JStr ''Intro'', JStr ''Q1'', JStr ''p2'') # []"
    by (simp add: defs all_problems_def)
  have h9: "filter (\<lambda>q. outfname example_env (fst q) (fst (snd q)) =
                        outfname example_env (JStr ''Intro'') (JStr ''Q1'')) [] = []"
    by simp
  from display_name_collisions[OF h1 h2 h3 h4 h5 h6 h7 h8 h9] h1 h2 h3 h4 h7 h8
  show ?thesis by (intro conjI) blast+
qed

section \<open>Two runs\<close>

lemma map_sum_bind_r: "map_sum id f (bind_r m g) = bind_r m (\<lambda>x. map_sum id f (g x))"
  by (cases m) simp_all

lemma bind_r_cong_fun: "(\<And>x. f x = g x) \<Longrightarrow> bind_r m f = bind_r m g"
  by (cases m) simp_all

lemma upd_swap:
  "(s::UngradedProblems)\<lparr>ungraded := u, student_df := a\<rparr> = s\<lparr>student_df := a, ungraded := u\<rparr>"
  by (rule UngradedProblems.equality) simp_all

lemma add_child_student_df:
  "add_child vert cid (self\<lparr>student_df := a\<rparr>) =
     map_sum id (\<lambda>t. t\<lparr>student_df := a\<rparr>) (add_child vert cid self)"
  by (simp add: add_child_def map_sum_bind_r if_distrib[of "map_sum id (\<lambda>t. t\<lparr>student_df := a\<rparr>)"]
        upd_swap cong del: if_weak_cong)

lemma for_each_student_df:
  assumes "\<And>x s. body x (s\<lparr>student_df := a\<rparr>) = map_sum id (\<lambda>t. t\<lparr>student_df := a\<rparr>) (body x s)"
  shows "for_each body xs (s\<lparr>student_df := a\<rparr>) =
         map_sum id (\<lambda>t. t\<lparr>student_df := a\<rparr>) (for_each body xs s)"
proof (induction xs arbitrary: s)
  case Nil
  show ?case by simp
next
  case (Cons x xs)
  show ?case
  proof (cases "body x s")
    case (Inl e)
    then show ?thesis by (simp add: assms)
  next
    case (Inr t)
    then show ?thesis by (simp add: assms Cons.IH)
  qed
qed

lemma add_from_vert_student_df:
  "add_from_vert vert (self\<lparr>student_df := a\<rparr>) =
     map_sum id (\<lambda>t. t\<lparr>student_df := a\<rparr>) (add_from_vert vert self)"
  by (simp add: add_from_vert_def map_sum_bind_r for_each_student_df add_child_student_df)

lemma visit_vert_student_df:
  "visit_vert vid (self\<lparr>student_df := a\<rparr>) =
     map_sum id (\<lambda>t. t\<lparr>student_df := a\<rparr>) (visit_vert vid self)"
  by (simp add: visit_vert_def map_sum_bind_r add_from_vert_student_df)

lemma visit_node_student_df:
  "visit_node item (self\<lparr>student_df := a\<rparr>) =
     map_sum id (\<lambda>t. t\<lparr>student_df := a\<rparr>) (visit_node item self)"
  by (simp add: visit_node_def Let_def map_sum_bind_r for_each_student_df visit_vert_student_df
        if_distrib[of "map_sum id (\<lambda>t. t\<lparr>student_df := a\<rparr>)"] cong del: if_weak_cong)

lemma extract_ungraded_student_df:
  "extract_ungraded (self\<lparr>student_df := a\<rparr>) =
     map_sum id (\<lambda>t. t\<lparr>student_df := a\<rparr>) (extract_ungraded self)"
proof (cases "course_structure self")
  case (JObj items)
  have "for_each visit_node items (self\<lparr>student_df := a, ungraded := []\<rparr>) =
        for_each visit_node items ((self\<lparr>ungraded := []\<rparr>)\<lparr>student_df := a\<rparr>)"
    by (simp add: upd_swap)
  also have "\<dots> = map_sum id (\<lambda>t. t\<lparr>student_df := a\<rparr>) (for_each visit_node items (self\<lparr>ungraded := []\<rparr>))"
    by (rule for_each_student_df) (rule visit_node_student_df)
  finally show ?thesis
    by (simp add: extract_ungraded_def JObj)
qed (simp_all add: extract_ungraded_def)

lemma extract_ungraded_reset:
  "extract_ungraded (self\<lparr>ungraded := u\<rparr>) = extract_ungraded self"
  by (cases "course_structure self") (simp_all add: extract_ungraded_def)

lemma extract_ungraded_depends:
  assumes "course_structure s1 = course_structure s2"
  shows "extract_ungraded s1 =
         map_sum id (\<lambda>t. t\<lparr>student_df := student_df s1\<rparr>) (extract_ungraded s2)"
proof -
  have "s1 = s2\<lparr>ungraded := ungraded s1, student_df := student_df s1\<rparr>"
    using assms by (intro UngradedProblems.equality) simp_all
  then have "extract_ungraded s1 = extract_ungraded (s2\<lparr>ungraded := ungraded s1, student_df := student_df s1\<rparr>)"
    by simp
  then show ?thesis
    by (simp add: extract_ungraded_student_df extract_ungraded_reset)
qed

lemma extract_student_answers_os:
  "extract_student_answers (env\<lparr>os_error := x\<rparr>) = extract_student_answers env"
proof (rule ext)
  fix c
  show "extract_student_answers (env\<lparr>os_error := x\<rparr>) c = extract_student_answers env c"
  proof (cases c)
    case NaN
    then show ?thesis by (simp add: extract_student_answers_def)
  next
    case (Val j)
    then show ?thesis by (cases j) (simp_all add: extract_student_answers_def)
  qed
qed

lemma outfname_os: "outfname (env\<lparr>os_error := x\<rparr>) section name = outfname env section name"
proof -
  have "py_format (env\<lparr>os_error := x\<rparr>) v = py_format env v" for v
    by (cases v) (simp_all add: py_format_def)
  then show ?thesis by (simp add: outfname_def)
qed

lemma expected_calls_os:
  "expected_calls (env\<lparr>os_error := x\<rparr>) base_dir df u = expected_calls env base_dir df u"
proof -
  have pr: "problem_records (env\<lparr>os_error := x\<rparr>) = problem_records env"
    by (intro ext) (simp add: problem_records_def extract_student_answers_os)
  have pc: "problem_call (env\<lparr>os_error := x\<rparr>) = problem_call env"
    by (intro ext) (simp add: problem_call_def pr outfname_os)
  have sc: "section_calls (env\<lparr>os_error := x\<rparr>) base_dir df item = section_calls env base_dir df item"
    for item
    by (cases "fst item") (simp_all add: section_calls_def pc)
  have "section_calls (env\<lparr>os_error := x\<rparr>) base_dir df = section_calls env base_dir df"
    by (rule ext) (rule sc)
  then show ?thesis by (simp add: expected_calls_def)
qed

text \<open>
  Claim C8.  Two runs on equal course structures give the same result of
  \<^verbatim>\<open>extract_ungraded\<close>, error or mapping, whatever \<^verbatim>\<open>self.ungraded\<close> and the reference
  \<^verbatim>\<open>self.student_df\<close> were before.  If moreover the student tables are equal and both
  runs of \<^verbatim>\<open>write_records\<close> return, they make the same calls with the same frames,
  whatever frames the store held, whatever calls were made before, and however the
  operating system decides about errors.
\<close>

theorem runs_deterministic:
  assumes "course_structure s1 = course_structure s2"
    and "extract_ungraded s1 = Inr s1'" and "extract_ungraded s2 = Inr s2'"
    and "student_df s1 < length (frames w1)" and "student_df s2 < length (frames w2)"
    and "frames w1 ! student_df s1 = frames w2 ! student_df s2"
    and "write_records (env\<lparr>os_error := os1\<rparr>) base_dir (s1', w1) = (None, st1)"
    and "write_records (env\<lparr>os_error := os2\<rparr>) base_dir (s2', w2) = (None, st2)"
  shows "map_sum id ungraded (extract_ungraded s1) = map_sum id ungraded (extract_ungraded s2) \<and>
         ungraded s1' = ungraded s2' \<and>
         new_calls w1 (snd st1) = new_calls w2 (snd st2)"
proof -
  note dep = extract_ungraded_depends[OF assms(1)]
  have a: "map_sum id ungraded (extract_ungraded s1) = map_sum id ungraded (extract_ungraded s2)"
    unfolding dep by (cases "extract_ungraded s2") simp_all
  from dep assms(2,3) have s1': "s1' = s2'\<lparr>student_df := student_df s1\<rparr>" by simp
  then have u: "ungraded s1' = ungraded s2'" and d1: "student_df s1' = student_df s1" by simp_all
  have "extract_ungraded s2 = map_sum id (\<lambda>t. t\<lparr>student_df := student_df s2\<rparr>) (extract_ungraded s2)"
    by (rule extract_ungraded_depends) simp
  with assms(3) have d2: "student_df s2' = student_df s2" by (metis map_sum.simps(2) sum.inject(2)
        UngradedProblems.select_convs(2) UngradedProblems.surjective UngradedProblems.update_convs(2))
  have v1: "student_df s1' < length (frames w1)" using assms(4) d1 by simp
  have v2: "student_df s2' < length (frames w2)" using assms(5) d2 by simp
  from write_records_calls[OF v1 assms(7)]
  have c1: "expected_calls env base_dir (frames w1 ! student_df s1) (ungraded s1') = Inr (new_calls w1 (snd st1))"
    by (simp add: expected_calls_os d1)
  from write_records_calls[OF v2 assms(8)]
  have c2: "expected_calls env base_dir (frames w2 ! student_df s2) (ungraded s2') = Inr (new_calls w2 (snd st2))"
    by (simp add: expected_calls_os d2)
  from c1 c2 u assms(6) have "new_calls w1 (snd st1) = new_calls w2 (snd st2)" by simp
  with a u show ?thesis by simp
qed

text \<open>
  Two runs of the example: the second starts from an object with a stale mapping, a
  store with another frame in it, an earlier call and another operating system.
\<close>

theorem runs_deterministic_witness:
  "course_structure example_self = course_structure example_self2 \<and>
   extract_ungraded example_self = Inr example_extracted \<and>
   extract_ungraded example_self2 = Inr (example_extracted\<lparr>student_df := 1\<rparr>) \<and>
   frames example_world ! student_df example_self = frames example_world2 ! student_df example_self2 \<and>
   write_records (example_env\<lparr>os_error := (\<lambda>history call. None)\<rparr>) ''ungraded_problems''
       (example_extracted, example_world) =
     (None, snd (write_records (example_env\<lparr>os_error := (\<lambda>history call. None)\<rparr>) ''ungraded_problems''
       (example_extracted, example_world))) \<and>
   write_records (example_env\<lparr>os_error := example_os2\<rparr>) ''ungraded_problems''
       (example_extracted\<lparr>student_df := 1\<rparr>, example_world2) =
     (None, snd (write_records (example_env\<lparr>os_error := example_os2\<rparr>) ''ungraded_problems''
       (example_extracted\<lparr>student_df := 1\<rparr>, example_world2))) \<and>
   ungraded example_extracted = ungraded (example_extracted\<lparr>student_df := 1\<rparr>) \<and>
   new_calls example_world
     (snd (snd (write_records (example_env\<lparr>os_error := (\<lambda>history call. None)\<rparr>) ''ungraded_problems''
       (example_extracted, example_world)))) =
   new_calls example_world2
     (snd (snd (write_records (example_env\<lparr>os_error := example_os2\<rparr>) ''ungraded_problems''
       (example_extracted\<lparr>student_df := 1\<rparr>, example_world2))))"
proof -
  note xdefs = extract_ungraded_def example_self_def example_self2_def example_course_def
    example_node_def example_extracted_def visit_node_def visit_vert_def add_from_vert_def
    add_child_def key_eq_def
  have h1: "course_structure example_self = course_structure example_self2"
    by (simp add: example_self2_def)
  have h2: "extract_ungraded example_self = Inr example_extracted"
    by (simp add: xdefs)
  have h3: "extract_ungraded example_self2 = Inr (example_extracted\<lparr>student_df := 1\<rparr>)"
    by (simp add: xdefs)
  have h4: "student_df example_self < length (frames example_world)"
    by (simp add: example_defs)
  have h5: "student_df example_self2 < length (frames example_world2)"
    by (simp add: example_self2_def example_world2_def)
  have h6: "frames example_world ! student_df example_self =
            frames example_world2 ! student_df example_self2"
    by (simp add: example_defs example_self2_def example_world2_def)
  have "fst (write_records (example_env\<lparr>os_error := (\<lambda>history call. None)\<rparr>) ''ungraded_problems''
       (example_extracted, example_world)) = None"
    by (simp add: example_defs write_defs)
  then have h7: "write_records (example_env\<lparr>os_error := (\<lambda>history call. None)\<rparr>) ''ungraded_problems''
       (example_extracted, example_world) =
     (None, snd (write_records (example_env\<lparr>os_error := (\<lambda>history call. None)\<rparr>) ''ungraded_problems''
       (example_extracted, example_world)))"
    by (metis prod.collapse)
  have "fst (write_records (example_env\<lparr>os_error := example_os2\<rparr>) ''ungraded_problems''
       (example_extracted\<lparr>student_df := 1\<rparr>, example_world2)) = None"
    by (simp add: example_defs example_world2_def example_os2_def write_defs)
  then have h8: "write_records (example_env\<lparr>os_error := example_os2\<rparr>) ''ungraded_problems''
       (example_extracted\<lparr>student_df := 1\<rparr>, example_world2) =
     (None, snd (write_records (example_env\<lparr>os_error := example_os2\<rparr>) ''ungraded_problems''
       (example_extracted\<lparr>student_df := 1\<rparr>, example_world2)))"
    by (metis prod.collapse)
  from runs_deterministic[OF h1 h2 h3 h4 h5 h6 h7 h8] h1 h2 h3 h6 h7 h8
  show ?thesis by (intro conjI) blast+
qed

section \<open>A missing input\<close>

lemma read_encrypted_json_no_content:
  assumes "json_loads env [] = Inl e1" and "no_content env fname"
  shows "\<exists>e. read_encrypted_json env fname = Inl e"
  using assms by (cases "gpg_stdout env fname") (auto simp: read_encrypted_json_def no_content_def)

lemma read_encrypted_tsv_no_content:
  assumes "read_table env (CHR 0x09) [] = Inl e2" and "no_content env fname"
  shows "\<exists>e. read_encrypted_tsv env fname = Inl e"
  using assms
  by (cases "gpg_stdout env fname") (auto simp: read_encrypted_tsv_def pd_read_csv_def no_content_def)

lemma init_reader_fails:
  assumes "(\<exists>e. read_encrypted_json env (structure_fname p c) = Inl e) \<or>
           (\<exists>e. read_encrypted_tsv env (student_fname p c) = Inl e)"
  shows "\<exists>e. init env p c w = (Inl e, w)"
proof (cases "read_encrypted_json env (structure_fname p c)")
  case (Inl e)
  then show ?thesis by (simp add: init_def)
next
  case (Inr cs)
  with assms obtain e where "read_encrypted_tsv env (student_fname p c) = Inl e" by auto
  with Inr show ?thesis by (simp add: init_def)
qed

text \<open>
  Claim C4.  Let the JSON parser and the table parser reject an empty stream, as
  \<^verbatim>\<open>json.load\<close> and \<^verbatim>\<open>pandas.read_csv\<close> do.  If \<^verbatim>\<open>gpg\<close> gives no content for the
  course-structure file or for the studentmodule file (it cannot be started, or it
  prints nothing because the file is missing or cannot be decrypted), then constructing
  \<^verbatim>\<open>UngradedProblems\<close> raises an error, the program ends with that error, and the world
  is as it was: no directory is created and no file is written.
\<close>

theorem missing_input_fails:
  assumes "json_loads env [] = Inl e1" and "read_table env (CHR 0x09) [] = Inl e2"
    and "no_content env
           (structure_fname ''../../database/berkeleyx-2015-02-01/'' ''BerkeleyX-GG101x-1T2014'') \<or>
         no_content env
           (student_fname ''../../database/berkeleyx-2015-02-01/'' ''BerkeleyX-GG101x-1T2014'')"
  shows "\<exists>e. init env ''../../database/berkeleyx-2015-02-01/'' ''BerkeleyX-GG101x-1T2014'' w = (Inl e, w) \<and>
             main env w = (Some e, w) \<and> fs (snd (main env w)) = fs w"
proof -
  from assms have "(\<exists>e. read_encrypted_json env
             (structure_fname ''../../database/berkeleyx-2015-02-01/'' ''BerkeleyX-GG101x-1T2014'') = Inl e) \<or>
           (\<exists>e. read_encrypted_tsv env
             (student_fname ''../../database/berkeleyx-2015-02-01/'' ''BerkeleyX-GG101x-1T2014'') = Inl e)"
    using read_encrypted_json_no_content read_encrypted_tsv_no_content by blast
  from init_reader_fails[OF this, of w] obtain e where
    e: "init env ''../../database/berkeleyx-2015-02-01/'' ''BerkeleyX-GG101x-1T2014'' w = (Inl e, w)"
    by blast
  then have "main env w = (Some e, w)" by (simp add: main_def)
  with e show ?thesis by auto
qed

text \<open>In the example environment \<^verbatim>\<open>gpg\<close> prints nothing for any file.\<close>

theorem missing_input_fails_witness:
  "json_loads example_env [] = Inl JSONDecodeError \<and>
   read_table example_env (CHR 0x09) [] = Inl EmptyDataError \<and>
   no_content example_env
     (structure_fname ''../../database/berkeleyx-2015-02-01/'' ''BerkeleyX-GG101x-1T2014'') \<and>
   (\<exists>e. init example_env ''../../database/berkeleyx-2015-02-01/'' ''BerkeleyX-GG101x-1T2014''
          example_world = (Inl e, example_world) \<and>
        main example_env example_world = (Some e, example_world) \<and>
        fs (snd (main example_env example_world)) = fs example_world)"
proof -
  have h1: "json_loads example_env [] = Inl JSONDecodeError" by (simp add: example_env_def)
  have h2: "read_table example_env (CHR 0x09) [] = Inl EmptyDataError" by (simp add: example_env_def)
  have h3: "no_content example_env
     (structure_fname ''../../database/berkeleyx-2015-02-01/'' ''BerkeleyX-GG101x-1T2014'')"
    by (simp add: no_content_def example_env_def)
  from missing_input_fails[OF h1 h2 disjI1[OF h3], of example_world] h1 h2 h3
  show ?thesis by (intro conjI)
qed

section \<open>Reading the student table\<close>

lemma map_of_filter_keys:
  "map_of (filter (\<lambda>cv. fst cv \<in> S) xs) c = (if c \<in> S then map_of xs c else None)"
  by (induction xs) auto

lemma map_of_zip_map_snd:
  "map_of (zip hs (map f vals)) c = map_option f (map_of (zip hs vals) c)"
proof (induction hs arbitrary: vals)
  case Nil
  show ?case by simp
next
  case (Cons h hs)
  show ?case by (cases vals) (simp_all add: Cons.IH)
qed

lemma to_cell_cases:
  "to_cell (''na'' # na) field = NaN \<or>
   (to_cell (''na'' # na) field = Val (JStr field) \<and> field \<noteq> ''na'')"
  by (auto simp: to_cell_def)

lemma pd_read_csv_Inr:
  assumes "pd_read_csv env text sep na cols = Inr df"
  shows "\<exists>header data. read_table env sep text = Inr (header, data) \<and> set cols \<subseteq> set header \<and>
           columns df = filter (\<lambda>c. c \<in> set cols) header \<and>
           rows df = zip [0 ..< length data]
                       (map (\<lambda>vals. filter (\<lambda>cv. fst cv \<in> set cols)
                                         (zip header (map (to_cell (na @ default_na env)) vals)))
                            data)"
proof -
  from assms obtain tab where tab: "read_table env sep text = Inr tab"
    and r: "(let header = fst tab; na' = na @ default_na env in
       if \<not> set cols \<subseteq> set header then Inl ValueError
       else Inr \<lparr>columns = filter (\<lambda>c. c \<in> set cols) header,
                 rows = zip [0 ..< length (snd tab)]
                          (map (\<lambda>vals. filter (\<lambda>cv. fst cv \<in> set cols)
                                            (zip header (map (to_cell na') vals)))
                               (snd tab))\<rparr>) = Inr df"
    unfolding pd_read_csv_def bind_r_Inr by blast
  from r have sub: "set cols \<subseteq> set (fst tab)" by (auto simp: Let_def split: if_splits)
  with r have "df = \<lparr>columns = filter (\<lambda>c. c \<in> set cols) (fst tab),
                 rows = zip [0 ..< length (snd tab)]
                          (map (\<lambda>vals. filter (\<lambda>cv. fst cv \<in> set cols)
                                            (zip (fst tab) (map (to_cell (na @ default_na env)) vals)))
                               (snd tab))\<rparr>"
    by (simp add: Let_def)
  with tab sub show ?thesis by (intro exI[of _ "fst tab"] exI[of _ "snd tab"]) simp
qed

text \<open>
  Claim C5.  When \<^verbatim>\<open>read_encrypted_tsv\<close> returns a frame, the stream was tokenized with
  the tab as separator, the columns of the frame are the six columns
  \<^verbatim>\<open>module_id\<close>, \<^verbatim>\<open>student_id\<close>, \<^verbatim>\<open>state\<close>, \<^verbatim>\<open>created\<close>, \<^verbatim>\<open>modified\<close> and \<^verbatim>\<open>done\<close>
  and no other column of the input, there is one row for every data row of the input,
  and every cell is either missing or the string of its field; a field spelled
  \<^verbatim>\<open>na\<close> is missing.
\<close>

theorem read_encrypted_tsv_columns:
  assumes "read_encrypted_tsv env fname = Inr df"
  shows "set (columns df) = set usecols \<and>
         (\<forall>row\<in>set (rows df). \<forall>cv\<in>set (snd row).
            fst cv \<in> set usecols \<and>
            (snd cv = NaN \<or> (\<exists>s. snd cv = Val (JStr s) \<and> s \<noteq> ''na''))) \<and>
         (\<exists>stream header data.
            gpg_stdout env fname = Inr stream \<and>
            read_table env (CHR 0x09) stream = Inr (header, data) \<and>
            columns df = filter (\<lambda>c. c \<in> set usecols) header \<and>
            map fst (rows df) = [0 ..< length data] \<and>
            (\<forall>i<length data. \<forall>c\<in>set usecols.
               map_of (snd (rows df ! i)) c =
               map_option (\<lambda>field. if field \<in> set (''na'' # default_na env) then NaN
                                     else Val (JStr field))
                 (map_of (zip header (data ! i)) c)))"
proof -
  from assms obtain stream where stream: "gpg_stdout env fname = Inr stream"
    and pd: "pd_read_csv env stream (CHR 0x09) [''na''] usecols = Inr df"
    by (auto simp: read_encrypted_tsv_def usecols_def bind_r_Inr)
  from pd_read_csv_Inr[OF pd] obtain header data where
    tab: "read_table env (CHR 0x09) stream = Inr (header, data)"
    and sub: "set usecols \<subseteq> set header"
    and cols: "columns df = filter (\<lambda>c. c \<in> set usecols) header"
    and rws: "rows df = zip [0 ..< length data]
                       (map (\<lambda>vals. filter (\<lambda>cv. fst cv \<in> set usecols)
                                         (zip header (map (to_cell ([''na''] @ default_na env)) vals)))
                            data)"
    by blast
  have c1: "set (columns df) = set usecols" using sub cols by auto
  have c2: "\<forall>row\<in>set (rows df). \<forall>cv\<in>set (snd row).
            fst cv \<in> set usecols \<and>
            (snd cv = NaN \<or> (\<exists>s. snd cv = Val (JStr s) \<and> s \<noteq> ''na''))"
  proof (intro ballI)
    fix row cv
    assume "row \<in> set (rows df)" and cv: "cv \<in> set (snd row)"
    then have "snd row \<in> set (map (\<lambda>vals. filter (\<lambda>cv. fst cv \<in> set usecols)
                                         (zip header (map (to_cell ([''na''] @ default_na env)) vals)))
                            data)"
      unfolding rws by (metis set_zip_rightD prod.collapse)
    then obtain vals where "snd row = filter (\<lambda>cv. fst cv \<in> set usecols)
                                         (zip header (map (to_cell ([''na''] @ default_na env)) vals))"
      by auto
    with cv have k: "fst cv \<in> set usecols"
      and z: "cv \<in> set (zip header (map (to_cell (''na'' # default_na env)) vals))"
      by auto
    from z have "snd cv \<in> set (map (to_cell (''na'' # default_na env)) vals)"
      by (metis set_zip_rightD prod.collapse)
    then obtain field where "snd cv = to_cell (''na'' # default_na env) field" by auto
    with to_cell_cases[of "default_na env" field] k
    show "fst cv \<in> set usecols \<and>
            (snd cv = NaN \<or> (\<exists>s. snd cv = Val (JStr s) \<and> s \<noteq> ''na''))"
      by auto
  qed
  have c3: "map fst (rows df) = [0 ..< length data]" unfolding rws by simp
  have c4: "\<forall>i<length data. \<forall>c\<in>set usecols.
               map_of (snd (rows df ! i)) c =
               map_option (\<lambda>field. if field \<in> set (''na'' # default_na env) then NaN
                                     else Val (JStr field))
                 (map_of (zip header (data ! i)) c)"
  proof (intro allI impI ballI)
    fix i c
    assume i: "i < length data" and c: "c \<in> set usecols"
    have "snd (rows df ! i) = filter (\<lambda>cv. fst cv \<in> set usecols)
              (zip header (map (to_cell ([''na''] @ default_na env)) (data ! i)))"
      unfolding rws using i by simp
    then show "map_of (snd (rows df ! i)) c =
               map_option (\<lambda>field. if field \<in> set (''na'' # default_na env) then NaN
                                     else Val (JStr field))
                 (map_of (zip header (data ! i)) c)"
      using c by (simp add: map_of_filter_keys map_of_zip_map_snd to_cell_def[abs_def])
  qed
  from c1 c2 c3 c4 stream tab cols show ?thesis by blast
qed

text \<open>An input with eight columns and one row, three of whose fields are missing values.\<close>

theorem read_encrypted_tsv_columns_witness:
  "read_encrypted_tsv example_tsv_env ''studentmodule.sql.gpg'' =
     Inr \<lparr>columns = [''module_id'', ''student_id'', ''state'', ''created'', ''modified'', ''done''],
          rows = [(0, [(''module_id'', Val (JStr ''p1'')), (''student_id'', Val (JStr ''7'')),
                       (''state'', Val (JStr ''{}'')), (''created'', Val (JStr ''2014'')),
                       (''modified'', NaN), (''done'', NaN)])]\<rparr> \<and>
   set (columns \<lparr>columns = [''module_id'', ''student_id'', ''state'', ''created'', ''modified'', ''done''],
          rows = [(0::nat, [(''module_id'', Val (JStr ''p1'')), (''student_id'', Val (JStr ''7'')),
                       (''state'', Val (JStr ''{}'')), (''created'', Val (JStr ''2014'')),
                       (''modified'', NaN), (''done'', NaN)])]\<rparr>) = set usecols"
proof -
  have h: "read_encrypted_tsv example_tsv_env ''studentmodule.sql.gpg'' =
     Inr \<lparr>columns = [''module_id'', ''student_id'', ''state'', ''created'', ''modified'', ''done''],
          rows = [(0, [(''module_id'', Val (JStr ''p1'')), (''student_id'', Val (JStr ''7'')),
                       (''state'', Val (JStr ''{}'')), (''created'', Val (JStr ''2014'')),
                       (''modified'', NaN), (''done'', NaN)])]\<rparr>"
    by (simp add: read_encrypted_tsv_def pd_read_csv_def example_tsv_env_def example_env_def
          to_cell_def Let_def)
  from h conjunct1[OF read_encrypted_tsv_columns[OF h]] show ?thesis by (intro conjI)
qed

section \<open>When the extraction returns\<close>

lemma add_child_ok:
  "(\<exists>self'. add_child vert cid self = Inr self') \<longleftrightarrow> child_ok (course_structure self) vert cid"
proof (cases "py_getitem (course_structure self) cid")
  case (Inl e)
  then show ?thesis by (simp add: add_child_def child_ok_def)
next
  case child: (Inr child)
  show ?thesis
  proof (cases "py_getitem child (JStr ''category'')")
    case (Inl e)
    with child show ?thesis by (simp add: add_child_def child_ok_def)
  next
    case cat: (Inr cat)
    show ?thesis
    proof (cases "cat = JStr ''problem''")
      case False
      with child cat show ?thesis by (simp add: add_child_def child_ok_def)
    next
      case True
      have "(\<exists>self'. add_child vert cid self = Inr self') \<longleftrightarrow>
            (\<exists>vm vn cm name. py_getitem vert (JStr ''metadata'') = Inr vm \<and>
               py_getitem vm (JStr ''display_name'') = Inr vn \<and> hashable vn \<and>
               py_getitem child (JStr ''metadata'') = Inr cm \<and>
               py_getitem cm (JStr ''display_name'') = Inr name)"
      proof
        assume "\<exists>self'. add_child vert cid self = Inr self'"
        then show "\<exists>vm vn cm name. py_getitem vert (JStr ''metadata'') = Inr vm \<and>
               py_getitem vm (JStr ''display_name'') = Inr vn \<and> hashable vn \<and>
               py_getitem child (JStr ''metadata'') = Inr cm \<and>
               py_getitem cm (JStr ''display_name'') = Inr name"
          using child cat True
          by (auto simp: add_child_def bind_r_Inr split: if_splits)
      next
        assume "\<exists>vm vn cm name. py_getitem vert (JStr ''metadata'') = Inr vm \<and>
               py_getitem vm (JStr ''display_name'') = Inr vn \<and> hashable vn \<and>
               py_getitem child (JStr ''metadata'') = Inr cm \<and>
               py_getitem cm (JStr ''display_name'') = Inr name"
        then obtain vm vn cm name where "py_getitem vert (JStr ''metadata'') = Inr vm"
          "py_getitem vm (JStr ''display_name'') = Inr vn" "hashable vn"
          "py_getitem child (JStr ''metadata'') = Inr cm"
          "py_getitem cm (JStr ''display_name'') = Inr name" by blast
        with child cat True show "\<exists>self'. add_child vert cid self = Inr self'"
          by (simp add: add_child_def)
      qed
      also have "\<dots> \<longleftrightarrow> (\<exists>vert_name. has_display_name vert vert_name \<and> hashable vert_name) \<and>
           (\<exists>name. has_display_name child name)"
        by (auto simp: has_display_name_def bind_r_Inr)
      finally show ?thesis using child cat True by (simp add: child_ok_def)
    qed
  qed
qed

lemma for_each_ok:
  assumes "\<And>x s s'. body x s = Inr s' \<Longrightarrow> g s' = g s"
    and "\<And>x s. x \<in> set xs \<Longrightarrow> g s = c \<Longrightarrow> (\<exists>s'. body x s = Inr s') \<longleftrightarrow> ok x"
    and "g s = c"
  shows "(\<exists>s'. for_each body xs s = Inr s') \<longleftrightarrow> (\<forall>x\<in>set xs. ok x)"
  using assms(2,3)
proof (induction xs arbitrary: s)
  case Nil
  show ?case by simp
next
  case (Cons x xs)
  show ?case
  proof (cases "body x s")
    case (Inl e)
    with Cons.prems(1)[of x s] Cons.prems(2) have "\<not> ok x" by auto
    with Inl show ?thesis by simp
  next
    case (Inr t)
    with Cons.prems(1)[of x s] Cons.prems(2) have okx: "ok x" by auto
    from assms(1)[OF Inr] Cons.prems(2) have gt: "g t = c" by simp
    have "(\<exists>s'. for_each body xs t = Inr s') \<longleftrightarrow> (\<forall>x\<in>set xs. ok x)"
      by (rule Cons.IH[OF _ gt]) (use Cons.prems(1) in auto)
    with Inr okx show ?thesis by simp
  qed
qed

lemma add_from_vert_ok:
  "(\<exists>self'. add_from_vert vert self = Inr self') \<longleftrightarrow> vert_ok (course_structure self) vert"
proof -
  have loop: "(\<exists>self'. for_each (add_child vert) cids self = Inr self') \<longleftrightarrow>
        (\<forall>cid\<in>set cids. child_ok (course_structure self) vert cid)" for cids
    by (rule for_each_ok[where g = course_structure and c = "course_structure self"])
       (use add_child_recorded add_child_ok in auto)
  show ?thesis
    unfolding add_from_vert_def vert_ok_def bind_r_Inr using loop by auto
qed

lemma visit_vert_ok:
  "(\<exists>self'. visit_vert vid self = Inr self') \<longleftrightarrow>
   (\<exists>vert. py_getitem (course_structure self) vid = Inr vert \<and> vert_ok (course_structure self) vert)"
  unfolding visit_vert_def bind_r_Inr using add_from_vert_ok by blast

lemma visit_node_ok:
  "(\<exists>self'. visit_node item self = Inr self') \<longleftrightarrow> node_ok (course_structure self) (snd item)"
proof (cases "py_getitem (snd item) (JStr ''category'')")
  case (Inl e)
  then show ?thesis by (simp add: visit_node_def node_ok_def)
next
  case cat: (Inr cat)
  show ?thesis
  proof (cases "cat = JStr ''sequential''")
    case False
    with cat show ?thesis by (simp add: visit_node_def node_ok_def)
  next
    case True
    show ?thesis
    proof (cases "py_getitem (snd item) (JStr ''metadata'')")
      case (Inl e)
      with cat True show ?thesis by (simp add: visit_node_def node_ok_def)
    next
      case md: (Inr md)
      show ?thesis
      proof (cases "py_in ''graded'' md")
        case (Inl e)
        with cat True md show ?thesis by (simp add: visit_node_def node_ok_def)
      next
        case g: (Inr g)
        show ?thesis
        proof (cases g)
          case True
          with cat \<open>cat = JStr ''sequential''\<close> md g show ?thesis
            by (auto simp: visit_node_def node_ok_def)
        next
          case False
          have loop: "(\<exists>self'. for_each visit_vert vids self = Inr self') \<longleftrightarrow>
              (\<forall>vid\<in>set vids. \<exists>vert. py_getitem (course_structure self) vid = Inr vert \<and>
                  vert_ok (course_structure self) vert)" for vids
            by (rule for_each_ok[where g = course_structure and c = "course_structure self"])
               (use visit_vert_recorded visit_vert_ok in auto)
          have "(\<exists>self'. visit_node item self = Inr self') \<longleftrightarrow>
                (\<exists>children vids. py_getitem (snd item) (JStr ''children'') = Inr children \<and>
                    py_iter children = Inr vids \<and>
                    (\<exists>self'. for_each visit_vert vids self = Inr self'))"
            using cat \<open>cat = JStr ''sequential''\<close> md g False
            by (simp add: visit_node_def bind_r_Inr) blast
          also have "\<dots> \<longleftrightarrow> node_ok (course_structure self) (snd item)"
            using cat \<open>cat = JStr ''sequential''\<close> md g False
            by (auto simp: node_ok_def loop)
          finally show ?thesis .
        qed
      qed
    qed
  qed
qed

lemma extract_ungraded_ok:
  "(\<exists>self'. extract_ungraded self = Inr self') \<longleftrightarrow> extraction_ok (course_structure self)"
proof (cases "\<exists>items. course_structure self = JObj items")
  case False
  then have "extract_ungraded self = Inl AttributeError"
    by (cases "course_structure self") (simp_all add: extract_ungraded_def)
  with False show ?thesis by (simp add: extraction_ok_def)
next
  case True
  then obtain items where items: "course_structure self = JObj items" by blast
  have "(\<exists>self'. for_each visit_node items (self\<lparr>ungraded := []\<rparr>) = Inr self') \<longleftrightarrow>
        (\<forall>item\<in>set items. node_ok (course_structure self) (snd item))"
    by (rule for_each_ok[where g = course_structure and c = "course_structure self"])
       (use visit_node_recorded visit_node_ok in auto)
  then show ?thesis by (simp add: extract_ungraded_def extraction_ok_def items)
qed

lemma getitem_obj_err:
  assumes "py_getitem (JObj kvs) k = Inl e" and "hashable k"
  shows "e = KeyError"
  using assms by (cases k) (auto split: option.splits)

lemma getitem_obj_Inr:
  assumes "py_getitem (JObj kvs) k = Inr v"
  shows "\<exists>s. k = JStr s \<and> map_of kvs s = Some v"
  using assms by (cases k) (auto split: option.splits if_splits)

lemma typed_structure_lookup:
  assumes "typed_structure cs" and "py_getitem cs k = Inr v"
  shows "typed_node v"
proof -
  from assms(1) obtain items where cs: "cs = JObj items"
    and all: "\<forall>item\<in>set items. typed_node (snd item)"
    by (auto simp: typed_structure_def)
  from getitem_obj_Inr[OF assms(2)[unfolded cs]] obtain s where "map_of items s = Some v" by blast
  then have "(s, v) \<in> set items" by (rule map_of_SomeD)
  with all show ?thesis by force
qed

lemma typed_structure_lookup_err:
  assumes "typed_structure cs" and "py_getitem cs k = Inl e" and "hashable k"
  shows "e = KeyError"
  using assms by (auto simp: typed_structure_def dest: getitem_obj_err)

lemma typed_node_field_err:
  assumes "typed_node desc" and "py_getitem desc (JStr k) = Inl e"
  shows "e = KeyError"
  using assms by (auto simp: typed_node_def split: option.splits)

lemma typed_node_display_name_err:
  assumes "typed_node desc"
    and "bind_r (py_getitem desc (JStr ''metadata'')) (\<lambda>m. py_getitem m (JStr ''display_name'')) = Inl e"
  shows "e = KeyError"
proof (cases "py_getitem desc (JStr ''metadata'')")
  case (Inl e')
  with assms show ?thesis by (auto dest: typed_node_field_err)
next
  case (Inr md)
  with assms(1) obtain mkvs where "md = JObj mkvs"
    by (auto simp: typed_node_def split: option.splits)
  with Inr assms(2) show ?thesis by (auto split: option.splits)
qed

lemma typed_node_display_name_hashable:
  assumes "typed_node desc" and "has_display_name desc name"
  shows "hashable name"
proof -
  from assms(2) obtain md where md: "py_getitem desc (JStr ''metadata'') = Inr md"
    and n: "py_getitem md (JStr ''display_name'') = Inr name"
    by (auto simp: has_display_name_def bind_r_Inr)
  from assms(1) md obtain kvs mkvs where "desc = JObj kvs" "map_of kvs ''metadata'' = Some md"
    "md = JObj mkvs" "\<forall>name. map_of mkvs ''display_name'' = Some name \<longrightarrow> hashable name"
    by (auto simp: typed_node_def split: option.splits)
  with n show ?thesis by (auto split: option.splits)
qed

lemma typed_node_children:
  assumes "typed_node desc" and "py_getitem desc (JStr ''children'') = Inr c"
  shows "\<exists>ids. c = JArr ids \<and> py_iter c = Inr ids \<and> (\<forall>i\<in>set ids. hashable i)"
  using assms by (auto simp: typed_node_def split: option.splits)

lemma typed_node_metadata_in:
  assumes "typed_node desc" and "py_getitem desc (JStr ''metadata'') = Inr md"
  shows "\<exists>g. py_in k md = Inr g"
  using assms by (auto simp: typed_node_def split: option.splits)

lemma for_each_err:
  assumes "\<And>x s e. x \<in> set xs \<Longrightarrow> g s = c \<Longrightarrow> body x s = Inl e \<Longrightarrow> e = KeyError"
    and "\<And>x s s'. body x s = Inr s' \<Longrightarrow> g s' = g s"
    and "g s = c" and "for_each body xs s = Inl e"
  shows "e = KeyError"
  using assms(1,3,4)
proof (induction xs arbitrary: s)
  case Nil
  then show ?case by simp
next
  case (Cons x xs)
  show ?case
  proof (cases "body x s")
    case (Inl e')
    with Cons.prems(3) have "e' = e" by simp
    with Cons.prems(1)[of x s e'] Cons.prems(2) Inl show ?thesis by simp
  next
    case (Inr t)
    from assms(2)[OF Inr] Cons.prems(2) have gt: "g t = c" by simp
    from Inr Cons.prems(3) have rest: "for_each body xs t = Inl e" by simp
    show ?thesis by (rule Cons.IH[OF _ gt rest]) (use Cons.prems(1) in auto)
  qed
qed

lemma add_child_err:
  assumes "typed_structure (course_structure self)" and "typed_node vert" and "hashable cid"
    and "add_child vert cid self = Inl e"
  shows "e = KeyError"
proof (cases "py_getitem (course_structure self) cid")
  case (Inl e')
  with assms(4) have "e' = e" by (simp add: add_child_def)
  with typed_structure_lookup_err[OF assms(1) Inl assms(3)] show ?thesis by simp
next
  case child: (Inr child)
  from typed_structure_lookup[OF assms(1) child] have tc: "typed_node child" .
  show ?thesis
  proof (cases "py_getitem child (JStr ''category'')")
    case (Inl e')
    with assms(4) child have "e' = e" by (simp add: add_child_def)
    with typed_node_field_err[OF tc Inl] show ?thesis by simp
  next
    case cat: (Inr cat)
    show ?thesis
    proof (cases "cat = JStr ''problem''")
      case False
      with assms(4) child cat show ?thesis by (simp add: add_child_def)
    next
      case True
      show ?thesis
      proof (cases "bind_r (py_getitem vert (JStr ''metadata''))
                      (\<lambda>m. py_getitem m (JStr ''display_name''))")
        case (Inl e')
        with assms(4) child cat True have "e' = e"
          by (cases "py_getitem vert (JStr ''metadata'')") (simp_all add: add_child_def)
        with typed_node_display_name_err[OF assms(2) Inl] show ?thesis by simp
      next
        case vn: (Inr vn)
        then have hv: "hashable vn"
          using typed_node_display_name_hashable[OF assms(2)] by (simp add: has_display_name_def)
        from vn obtain vm where vm: "py_getitem vert (JStr ''metadata'') = Inr vm"
          and vn': "py_getitem vm (JStr ''display_name'') = Inr vn"
          by (auto simp: bind_r_Inr)
        show ?thesis
        proof (cases "bind_r (py_getitem child (JStr ''metadata''))
                        (\<lambda>m. py_getitem m (JStr ''display_name''))")
          case (Inl e')
          with assms(4) child cat True vm vn' hv have "e' = e"
            by (cases "py_getitem child (JStr ''metadata'')") (simp_all add: add_child_def)
          with typed_node_display_name_err[OF tc Inl] show ?thesis by simp
        next
          case (Inr name)
          then obtain cm where "py_getitem child (JStr ''metadata'') = Inr cm"
            "py_getitem cm (JStr ''display_name'') = Inr name"
            by (auto simp: bind_r_Inr)
          with assms(4) child cat True vm vn' hv show ?thesis by (simp add: add_child_def)
        qed
      qed
    qed
  qed
qed

lemma add_from_vert_err:
  assumes "typed_structure (course_structure self)" and "typed_node vert"
    and "add_from_vert vert self = Inl e"
  shows "e = KeyError"
proof (cases "py_getitem vert (JStr ''children'')")
  case (Inl e')
  with assms(3) have "e' = e" by (simp add: add_from_vert_def)
  with typed_node_field_err[OF assms(2) Inl] show ?thesis by simp
next
  case (Inr c)
  from typed_node_children[OF assms(2) Inr] obtain ids where it: "py_iter c = Inr ids"
    and h: "\<forall>i\<in>set ids. hashable i" by blast
  from assms(3) Inr it have loop: "for_each (add_child vert) ids self = Inl e"
    by (simp add: add_from_vert_def)
  show ?thesis
  proof (rule for_each_err[where g = course_structure and c = "course_structure self", OF _ _ _ loop])
    fix x s e'
    assume "x \<in> set ids" "course_structure s = course_structure self" "add_child vert x s = Inl e'"
    with add_child_err[of s vert x e'] assms(1,2) h show "e' = KeyError" by simp
  next
    fix x s s'
    assume "add_child vert x s = Inr s'"
    then show "course_structure s' = course_structure s" using add_child_recorded by blast
  qed simp
qed

lemma visit_vert_err:
  assumes "typed_structure (course_structure self)" and "hashable vid"
    and "visit_vert vid self = Inl e"
  shows "e = KeyError"
proof (cases "py_getitem (course_structure self) vid")
  case (Inl e')
  with assms(3) have "e' = e" by (simp add: visit_vert_def)
  with typed_structure_lookup_err[OF assms(1) Inl assms(2)] show ?thesis by simp
next
  case (Inr vert)
  with assms(3) have "add_from_vert vert self = Inl e" by (simp add: visit_vert_def)
  from add_from_vert_err[OF assms(1) typed_structure_lookup[OF assms(1) Inr] this] show ?thesis .
qed

lemma visit_node_err:
  assumes "typed_structure (course_structure self)" and "typed_node (snd item)"
    and "visit_node item self = Inl e"
  shows "e = KeyError"
proof (cases "py_getitem (snd item) (JStr ''category'')")
  case (Inl e')
  with assms(3) have "e' = e" by (simp add: visit_node_def)
  with typed_node_field_err[OF assms(2) Inl] show ?thesis by simp
next
  case cat: (Inr cat)
  show ?thesis
  proof (cases "cat = JStr ''sequential''")
    case False
    with assms(3) cat show ?thesis by (simp add: visit_node_def)
  next
    case True
    show ?thesis
    proof (cases "py_getitem (snd item) (JStr ''metadata'')")
      case (Inl e')
      with assms(3) cat True have "e' = e" by (simp add: visit_node_def)
      with typed_node_field_err[OF assms(2) Inl] show ?thesis by simp
    next
      case md: (Inr md)
      from typed_node_metadata_in[OF assms(2) md] obtain g where g: "py_in ''graded'' md = Inr g"
        by blast
      show ?thesis
      proof (cases g)
        case True
        with assms(3) cat \<open>cat = JStr ''sequential''\<close> md g show ?thesis
          by (simp add: visit_node_def)
      next
        case False
        show ?thesis
        proof (cases "py_getitem (snd item) (JStr ''children'')")
          case (Inl e')
          with assms(3) cat \<open>cat = JStr ''sequential''\<close> md g False have "e' = e"
            by (simp add: visit_node_def)
          with typed_node_field_err[OF assms(2) Inl] show ?thesis by simp
        next
          case (Inr c)
          from typed_node_children[OF assms(2) Inr] obtain ids where it: "py_iter c = Inr ids"
            and h: "\<forall>i\<in>set ids. hashable i" by blast
          from assms(3) cat \<open>cat = JStr ''sequential''\<close> md g False Inr it
          have loop: "for_each visit_vert ids self = Inl e"
            by (simp add: visit_node_def)
          show ?thesis
          proof (rule for_each_err[where g = course_structure and c = "course_structure self",
                OF _ _ _ loop])
            fix x s e'
            assume "x \<in> set ids" "course_structure s = course_structure self"
              "visit_vert x s = Inl e'"
            with visit_vert_err[of s x e'] assms(1) h show "e' = KeyError" by simp
          next
            fix x s s'
            assume "visit_vert x s = Inr s'"
            then show "course_structure s' = course_structure s" using visit_vert_recorded by blast
          qed simp
        qed
      qed
    qed
  qed
qed

lemma extract_ungraded_err:
  assumes "typed_structure (course_structure self)" and "extract_ungraded self = Inl e"
  shows "e = KeyError"
proof -
  from assms(1) obtain items where items: "course_structure self = JObj items"
    and all: "\<forall>item\<in>set items. typed_node (snd item)"
    by (auto simp: typed_structure_def)
  from assms(2) items have loop: "for_each visit_node items (self\<lparr>ungraded := []\<rparr>) = Inl e"
    by (simp add: extract_ungraded_def)
  show ?thesis
  proof (rule for_each_err[where g = course_structure and c = "course_structure self",
        OF _ _ _ loop])
    fix x s e'
    assume "x \<in> set items" "course_structure s = course_structure self" "visit_node x s = Inl e'"
    with visit_node_err[of s x e'] assms(1) all show "e' = KeyError" by simp
  next
    fix x s s'
    assume "visit_node x s = Inr s'"
    then show "course_structure s' = course_structure s" using visit_node_recorded by blast
  qed simp
qed

lemma dangling_not_ok:
  assumes "item \<in> set (nodes cs)" and "top_level_ungraded (snd item)"
    and "vid \<in> set (child_ids (snd item))"
    and "(\<forall>v. py_getitem cs vid \<noteq> Inr v) \<or>
         (\<exists>vert cid. py_getitem cs vid = Inr vert \<and> cid \<in> set (child_ids vert) \<and>
            (\<forall>v. py_getitem cs cid \<noteq> Inr v))"
  shows "\<not> extraction_ok cs"
proof
  assume ok: "extraction_ok cs"
  then obtain items where cs: "cs = JObj items" and all: "\<forall>item\<in>set items. node_ok cs (snd item)"
    by (auto simp: extraction_ok_def)
  from assms(1) cs have "item \<in> set items" by (simp add: nodes_def)
  with all have n: "node_ok cs (snd item)" by blast
  from assms(2) obtain md where cat: "py_getitem (snd item) (JStr ''category'') = Inr (JStr ''sequential'')"
    and md: "py_getitem (snd item) (JStr ''metadata'') = Inr md" and g: "py_in ''graded'' md = Inr False"
    by (auto simp: top_level_ungraded_def bind_r_Inr)
  from n cat md g obtain c vids where c: "py_getitem (snd item) (JStr ''children'') = Inr c"
    and it: "py_iter c = Inr vids"
    and vs: "\<forall>vid\<in>set vids. \<exists>vert. py_getitem cs vid = Inr vert \<and> vert_ok cs vert"
    by (auto simp: node_ok_def)
  have "child_ids (snd item) = vids" by (simp add: child_ids_def c it)
  with assms(3) vs obtain vert where vert: "py_getitem cs vid = Inr vert" and vo: "vert_ok cs vert"
    by blast
  from assms(4) vert obtain cid where cid: "cid \<in> set (child_ids vert)"
    and no: "\<forall>v. py_getitem cs cid \<noteq> Inr v" by auto
  from vo obtain c' cids where c': "py_getitem vert (JStr ''children'') = Inr c'"
    and it': "py_iter c' = Inr cids" and cs': "\<forall>cid\<in>set cids. child_ok cs vert cid"
    by (auto simp: vert_ok_def)
  have "child_ids vert = cids" by (simp add: child_ids_def c' it')
  with cid cs' have "child_ok cs vert cid" by blast
  with no show False by (auto simp: child_ok_def)
qed

lemma claimed_unnamed: "claimed_precondition example_unnamed"
  by (simp add: claimed_precondition_def example_unnamed_def example_node_def nodes_def
        top_level_ungraded_def)

lemma not_claimed_chapter: "\<not> claimed_precondition example_chapter"
  by (simp add: claimed_precondition_def example_chapter_def nodes_def)

lemma unnamed_fails:
  "extract_ungraded \<lparr>course_structure = example_unnamed, student_df = 0, ungraded = []\<rparr> = Inl KeyError"
  by (simp add: extract_ungraded_def example_unnamed_def example_node_def visit_node_def
        visit_vert_def add_from_vert_def add_child_def)

lemma chapter_succeeds:
  "extract_ungraded \<lparr>course_structure = example_chapter, student_df = 0, ungraded = []\<rparr> =
     Inr \<lparr>course_structure = example_chapter, student_df = 0, ungraded = []\<rparr>"
  by (simp add: extract_ungraded_def example_chapter_def visit_node_def)

lemma dangling_typed: "typed_structure example_dangling"
  by (simp add: typed_structure_def typed_node_def example_dangling_def example_node_def)

text \<open>
  Claim C7, as stated, fails in both directions.  In \<open>example_unnamed\<close> every node has
  the keys \<^verbatim>\<open>category\<close> and \<^verbatim>\<open>metadata\<close>, the containers have their lists of children
  and every id is a key, yet extraction raises a KeyError: the metadata of the vertical
  has no \<^verbatim>\<open>display_name\<close>.  In \<open>example_chapter\<close> the only node has no \<^verbatim>\<open>metadata\<close>,
  yet extraction returns: the metadata of a node that is no \<^verbatim>\<open>sequential\<close> is not read.
\<close>

theorem extract_ungraded_precondition_counterexample:
  "claimed_precondition example_unnamed \<and>
   extract_ungraded \<lparr>course_structure = example_unnamed, student_df = 0, ungraded = []\<rparr> =
     Inl KeyError \<and>
   \<not> claimed_precondition example_chapter \<and>
   extract_ungraded \<lparr>course_structure = example_chapter, student_df = 0, ungraded = []\<rparr> =
     Inr \<lparr>course_structure = example_chapter, student_df = 0, ungraded = []\<rparr>"
  using claimed_unnamed unnamed_fails not_claimed_chapter chapter_succeeds by (intro conjI)

text \<open>
  Claim C7, amended.  \<^verbatim>\<open>extract_ungraded\<close> returns exactly when the course structure is
  a dict and every node has the key \<^verbatim>\<open>category\<close>; every \<^verbatim>\<open>sequential\<close> node has a
  \<^verbatim>\<open>metadata\<close> that \<^verbatim>\<open>in\<close> applies to; every \<^verbatim>\<open>sequential\<close> node without \<^verbatim>\<open>graded\<close> in
  its metadata has iterable \<^verbatim>\<open>children\<close>, each of them a key of the course structure
  whose node has iterable \<^verbatim>\<open>children\<close>, each of them a key again; and for each such
  grandchild of category \<^verbatim>\<open>problem\<close>, the metadata of the vertical has a hashable
  \<^verbatim>\<open>display_name\<close> and the metadata of the problem has a \<^verbatim>\<open>display_name\<close>.  On a
  course structure whose nodes are dicts, with a dict for every \<^verbatim>\<open>metadata\<close>, a hashable
  value for every \<^verbatim>\<open>display_name\<close> of a metadata and a list of hashable ids for every
  \<^verbatim>\<open>children\<close>, every error of the extraction is a KeyError, and a child id of a
  visited container or of one of its verticals that is no key of the course structure
  makes the extraction raise a KeyError.
\<close>

theorem extract_ungraded_precondition:
  "((\<exists>self'. extract_ungraded self = Inr self') \<longleftrightarrow> extraction_ok (course_structure self)) \<and>
   (typed_structure (course_structure self) \<longrightarrow>
      (\<forall>e. extract_ungraded self = Inl e \<longrightarrow> e = KeyError) \<and>
      (\<forall>item vid.
         item \<in> set (nodes (course_structure self)) \<and> top_level_ungraded (snd item) \<and>
         vid \<in> set (child_ids (snd item)) \<and>
         ((\<forall>v. py_getitem (course_structure self) vid \<noteq> Inr v) \<or>
          (\<exists>vert cid. py_getitem (course_structure self) vid = Inr vert \<and>
             cid \<in> set (child_ids vert) \<and>
             (\<forall>v. py_getitem (course_structure self) cid \<noteq> Inr v))) \<longrightarrow>
         extract_ungraded self = Inl KeyError))"
proof (intro conjI impI allI)
  show "(\<exists>self'. extract_ungraded self = Inr self') \<longleftrightarrow> extraction_ok (course_structure self)"
    by (rule extract_ungraded_ok)
next
  fix e
  assume "typed_structure (course_structure self)" and "extract_ungraded self = Inl e"
  then show "e = KeyError" by (rule extract_ungraded_err)
next
  fix item vid
  assume t: "typed_structure (course_structure self)"
    and d: "item \<in> set (nodes (course_structure self)) \<and> top_level_ungraded (snd item) \<and>
         vid \<in> set (child_ids (snd item)) \<and>
         ((\<forall>v. py_getitem (course_structure self) vid \<noteq> Inr v) \<or>
          (\<exists>vert cid. py_getitem (course_structure self) vid = Inr vert \<and>
             cid \<in> set (child_ids vert) \<and>
             (\<forall>v. py_getitem (course_structure self) cid \<noteq> Inr v)))"
  from d have "\<not> extraction_ok (course_structure self)"
    using dangling_not_ok[of item "course_structure self" vid] by blast
  then have "\<not> (\<exists>self'. extract_ungraded self = Inr self')" by (simp add: extract_ungraded_ok)
  then obtain e where e: "extract_ungraded self = Inl e"
    by (cases "extract_ungraded self") auto
  with extract_ungraded_err[OF t e] show "extract_ungraded self = Inl KeyError" by simp
qed

text \<open>
  The example course is extracted; \<open>example_dangling\<close> has a container whose child
  \<open>v9\<close> is no key.
\<close>

theorem extract_ungraded_precondition_witness:
  "(\<exists>self'. extract_ungraded example_self = Inr self') \<and>
   extraction_ok (course_structure example_self) \<and>
   typed_structure example_dangling \<and>
   (''s1'', example_node ''sequential'' [] [''v9'']) \<in> set (nodes example_dangling) \<and>
   top_level_ungraded (example_node ''sequential'' [] [''v9'']) \<and>
   JStr ''v9'' \<in> set (child_ids (example_node ''sequential'' [] [''v9''])) \<and>
   py_getitem example_dangling (JStr ''v9'') = Inl KeyError \<and>
   extract_ungraded \<lparr>course_structure = example_dangling, student_df = 0, ungraded = []\<rparr> =
     Inl KeyError"
proof -
  have h1: "extract_ungraded example_self = Inr example_extracted"
    by (simp add: extract_ungraded_def example_self_def example_course_def example_node_def
        example_extracted_def visit_node_def visit_vert_def add_from_vert_def add_child_def
        key_eq_def)
  then have h1': "\<exists>self'. extract_ungraded example_self = Inr self'" by blast
  with extract_ungraded_precondition[of example_self]
  have h2: "extraction_ok (course_structure example_self)" by blast
  have h3: "typed_structure example_dangling" by (rule dangling_typed)
  have h4: "(''s1'', example_node ''sequential'' [] [''v9'']) \<in> set (nodes example_dangling)"
    by (simp add: example_dangling_def nodes_def)
  have h5: "top_level_ungraded (example_node ''sequential'' [] [''v9''])"
    by (simp add: top_level_ungraded_def example_node_def)
  have h6: "JStr ''v9'' \<in> set (child_ids (example_node ''sequential'' [] [''v9'']))"
    by (simp add: child_ids_def example_node_def)
  have h7: "py_getitem example_dangling (JStr ''v9'') = Inl KeyError"
    by (simp add: example_dangling_def)
  let ?self = "\<lparr>course_structure = example_dangling, student_df = 0, ungraded = []\<rparr>"
  have h7': "\<forall>v. py_getitem (course_structure ?self) (JStr ''v9'') \<noteq> Inr v"
    using h7 by simp
  from extract_ungraded_precondition[of ?self] h3
  have "\<forall>item vid.
         item \<in> set (nodes (course_structure ?self)) \<and> top_level_ungraded (snd item) \<and>
         vid \<in> set (child_ids (snd item)) \<and>
         ((\<forall>v. py_getitem (course_structure ?self) vid \<noteq> Inr v) \<or>
          (\<exists>vert cid. py_getitem (course_structure ?self) vid = Inr vert \<and>
             cid \<in> set (child_ids vert) \<and>
             (\<forall>v. py_getitem (course_structure ?self) cid \<noteq> Inr v))) \<longrightarrow>
         extract_ungraded ?self = Inl KeyError"
    by simp
  from this[rule_format, of "(''s1'', example_node ''sequential'' [] [''v9''])" "JStr ''v9''"]
    h4 h5 h6 h7'
  have h8: "extract_ungraded ?self = Inl KeyError" by simp
  from h1' h2 h3 h4 h5 h6 h7 h8 show ?thesis by (intro conjI)
qed

end
